theory Spec2Isabelle
  imports Complex_Main
begin

section \<open>Data model (core/models.py)\<close>

text \<open>
  Python's unbounded integers are \<open>int\<close>; Python's floats are idealised as exact
  \<open>real\<close> numbers throughout (no rounding, no overflow).  Raised exceptions are values of
  \<open>py_error\<close>; a fallible function returns \<open>py_error + 'a\<close>.
\<close>

datatype py_error = ValueError | KeyError | IndexError | ZeroDivisionError

datatype MutationOperator =
    ARITHMETIC_REPLACEMENT
  | BOUNDARY_CONDITION
  | CONDITIONAL_REPLACEMENT
  | NEGATE_CONDITIONAL
  | RETURN_VALUE_REPLACEMENT
  | REMOVE_CONDITIONAL
  | VOID_METHOD_CALL
  | INCREMENT_DECREMENT
  | LOGICAL_OPERATOR
  | FRAMEWORK_SPECIFIC

datatype MutantStatus = PENDING | RUNNING | KILLED | SURVIVED | TIMEOUT | ERROR

record CodeLocation =
  file_path :: string
  line_start :: int
  line_end :: int
  column_start :: int
  column_end :: int

record CodeMetrics =
  cyclomatic_complexity :: int
  cognitive_complexity :: int
  nesting_depth :: int
  lines_of_code :: int
  number_of_parameters :: int
  is_public_api :: bool
  is_security_critical :: bool
  last_modified_days_ago :: int

text \<open>\<open>CodeMetrics()\<close> with every field at its dataclass default.\<close>

definition CodeMetrics_default :: CodeMetrics where
  "CodeMetrics_default =
     \<lparr>cyclomatic_complexity = 0, cognitive_complexity = 0, nesting_depth = 0,
      lines_of_code = 0, number_of_parameters = 0, is_public_api = False,
      is_security_critical = False, last_modified_days_ago = 999\<rparr>"

record HistoricalData =
  hist_operator :: MutationOperator
  times_generated :: int
  times_killed :: int
  times_survived :: int
  average_detection_time :: real

text \<open>The property \<open>HistoricalData.kill_rate\<close>.\<close>

definition kill_rate :: "HistoricalData \<Rightarrow> real" where
  "kill_rate h =
     (let total = times_killed h + times_survived h
      in if total = 0 then 0.5 else real_of_int (times_killed h) / real_of_int total)"

text \<open>
  The dataclass \<open>Mutant\<close>.  The field \<open>id\<close> is \<open>mutant_id\<close> here (\<open>id\<close> is the
  identity function of HOL); \<open>created_at\<close>, a wall-clock timestamp no operation reads, is left
  out.
\<close>

record Mutant =
  mutant_id :: string
  framework_id :: string
  location :: CodeLocation
  operator :: MutationOperator
  original_code :: string
  mutated_code :: string
  description :: string
  status :: MutantStatus
  execution_time :: real
  killing_tests :: "string list"
  error_message :: "string option"
  code_metrics :: "CodeMetrics option"
  historical_data :: "HistoricalData option"
  priority_score :: real
  estimated_execution_time :: real

section \<open>History tracker (core/scoring/history\_tracker.py)\<close>

text \<open>\<open>MutationOperator.value\<close>, the key of the tracker's table.\<close>

fun operator_value :: "MutationOperator \<Rightarrow> string" where
  "operator_value ARITHMETIC_REPLACEMENT = ''ARITHMETIC''"
| "operator_value BOUNDARY_CONDITION = ''BOUNDARY''"
| "operator_value CONDITIONAL_REPLACEMENT = ''CONDITIONAL''"
| "operator_value NEGATE_CONDITIONAL = ''NEGATE''"
| "operator_value RETURN_VALUE_REPLACEMENT = ''RETURN''"
| "operator_value REMOVE_CONDITIONAL = ''REMOVE_COND''"
| "operator_value VOID_METHOD_CALL = ''VOID_CALL''"
| "operator_value INCREMENT_DECREMENT = ''INCREMENT''"
| "operator_value LOGICAL_OPERATOR = ''LOGICAL''"
| "operator_value FRAMEWORK_SPECIFIC = ''OTHER''"

definition get_operator_history ::
  "(string \<rightharpoonup> HistoricalData) \<Rightarrow> MutationOperator \<Rightarrow> HistoricalData" where
  "get_operator_history data op =
     (case data (operator_value op) of
        Some h \<Rightarrow> h
      | None \<Rightarrow> \<lparr>hist_operator = op, times_generated = 10, times_killed = 5,
                 times_survived = 5, average_detection_time = 3\<rparr>)"

section \<open>Multi-factor scorer (core/scoring/multi\_factor\_scorer.py)\<close>

text \<open>
  A dictionary over the five factor names \<open>'historical'\<close>, \<open>'complexity'\<close>,
  \<open>'security'\<close>, \<open>'recency'\<close>, \<open>'bug_history'\<close>: of weights, of one mutant's factor values,
  or of the value lists of a batch.
\<close>

record 'a factor_dict =
  historical :: 'a
  complexity :: 'a
  security :: 'a
  recency :: 'a
  bug_history :: 'a

definition WEIGHTS :: "real factor_dict" where
  "WEIGHTS = \<lparr>historical = 0.30, complexity = 0.25, security = 0.20, recency = 0.15,
              bug_history = 0.10\<rparr>"

text \<open>
  The scorer object.  \<open>history_data\<close> is the table of its \<open>HistoryTracker\<close>;
  \<open>analyze_file\<close> stands for \<open>CodeAnalyzer.analyze_file\<close>, which reads the file system, and
  \<open>bug_history\<close> is the analyzer's \<open>_bug_history\<close> table; \<open>metrics_cache\<close> is
  \<open>self._metrics_cache\<close>, the only part the scorer updates.
\<close>

record scorer =
  history_data :: "string \<rightharpoonup> HistoricalData"
  analyze_file :: "string \<Rightarrow> CodeMetrics"
  bug_history_table :: "string \<rightharpoonup> int"
  metrics_cache :: "string \<rightharpoonup> CodeMetrics"

definition get_historical_bug_count :: "scorer \<Rightarrow> string \<Rightarrow> int" where
  "get_historical_bug_count sc fp =
     (case bug_history_table sc fp of Some n \<Rightarrow> n | None \<Rightarrow> 0)"

text \<open>The body of the loop of \<open>_precompute_metrics\<close>, for one mutant.\<close>

definition attach_metrics :: "scorer \<Rightarrow> Mutant \<Rightarrow> scorer \<times> Mutant" where
  "attach_metrics sc m =
     (let fp = file_path (location m);
          sc' = (case metrics_cache sc fp of
                   None \<Rightarrow> sc\<lparr>metrics_cache := (metrics_cache sc)(fp \<mapsto> analyze_file sc fp)\<rparr>
                 | Some _ \<Rightarrow> sc)
      in (sc', m\<lparr>code_metrics := metrics_cache sc' fp,
                historical_data :=
                  Some (get_operator_history (history_data sc') (operator m))\<rparr>))"

fun precompute_metrics :: "scorer \<Rightarrow> Mutant list \<Rightarrow> scorer \<times> Mutant list" where
  "precompute_metrics sc [] = (sc, [])"
| "precompute_metrics sc (m # ms) =
     (case attach_metrics sc m of
        (sc1, m') \<Rightarrow> (case precompute_metrics sc1 ms of (sc2, ms') \<Rightarrow> (sc2, m' # ms')))"

definition historical_factor :: "Mutant \<Rightarrow> real" where
  "historical_factor m =
     (case historical_data m of None \<Rightarrow> 0.5 | Some h \<Rightarrow> kill_rate h)"

definition complexity_factor :: "Mutant \<Rightarrow> real" where
  "complexity_factor m =
     (case code_metrics m of
        None \<Rightarrow> 0.5
      | Some metrics \<Rightarrow>
          0.4 * min (real_of_int (cyclomatic_complexity metrics) / 20) 1 +
          0.3 * min (real_of_int (cognitive_complexity metrics) / 30) 1 +
          0.2 * min (real_of_int (nesting_depth metrics) / 5) 1 +
          0.1 * min (real_of_int (number_of_parameters metrics) / 8) 1)"

definition security_factor :: "Mutant \<Rightarrow> real" where
  "security_factor m =
     (case code_metrics m of
        None \<Rightarrow> 0
      | Some metrics \<Rightarrow>
          if is_security_critical metrics then 1
          else if is_public_api metrics then 0.3
          else 0)"

definition recency_factor :: "Mutant \<Rightarrow> real" where
  "recency_factor m =
     (case code_metrics m of
        None \<Rightarrow> 0
      | Some metrics \<Rightarrow> exp (- real_of_int (last_modified_days_ago metrics) / 10))"

definition bug_history_factor :: "scorer \<Rightarrow> Mutant \<Rightarrow> real" where
  "bug_history_factor sc m =
     min (real_of_int (get_historical_bug_count sc (file_path (location m))) / 10) 1"

definition compute_factors_single :: "scorer \<Rightarrow> Mutant \<Rightarrow> real factor_dict" where
  "compute_factors_single sc m =
     \<lparr>historical = historical_factor m, complexity = complexity_factor m,
      security = security_factor m, recency = recency_factor m,
      bug_history = bug_history_factor sc m\<rparr>"

text \<open>Python's \<open>min\<close> and \<open>max\<close> of a list raise \<open>ValueError\<close> on the empty list.\<close>

definition py_min :: "real list \<Rightarrow> py_error + real" where
  "py_min values = (case values of [] \<Rightarrow> Inl ValueError | v # vs \<Rightarrow> Inr (fold min vs v))"

definition py_max :: "real list \<Rightarrow> py_error + real" where
  "py_max values = (case values of [] \<Rightarrow> Inl ValueError | v # vs \<Rightarrow> Inr (fold max vs v))"

text \<open>
  One round of the loop \<open>for factor_name, values in raw_factors.items()\<close> of
  \<open>_compute_normalized_factors\<close>: the min-max scaling of one factor's values.
\<close>

definition normalize_values :: "real list \<Rightarrow> py_error + real list" where
  "normalize_values values =
     (case py_min values of
        Inl e \<Rightarrow> Inl e
      | Inr min_val \<Rightarrow>
          (case py_max values of
             Inl e \<Rightarrow> Inl e
           | Inr max_val \<Rightarrow>
               Inr (if max_val - min_val = 0 then replicate (length values) 0.5
                    else map (\<lambda>v. (v - min_val) / (max_val - min_val)) values)))"

text \<open>
  The last loop of \<open>_compute_normalized_factors\<close>: \<open>result[mutant.id]\<close> is assigned for
  each index in turn, so a later mutant overwrites an earlier one that has the same id.
\<close>

definition build_result ::
  "Mutant list \<Rightarrow> real list factor_dict \<Rightarrow> (string \<rightharpoonup> real factor_dict)" where
  "build_result mutants normalized =
     fold (\<lambda>i result.
             result(mutant_id (mutants ! i) \<mapsto>
               \<lparr>historical = historical normalized ! i,
                complexity = complexity normalized ! i,
                security = security normalized ! i,
                recency = recency normalized ! i,
                bug_history = bug_history normalized ! i\<rparr>))
          [0..<length mutants] Map.empty"

definition compute_normalized_factors ::
  "scorer \<Rightarrow> Mutant list \<Rightarrow> py_error + (string \<rightharpoonup> real factor_dict)" where
  "compute_normalized_factors sc mutants =
     (let raw_factors =
            \<lparr>historical = map historical_factor mutants,
             complexity = map complexity_factor mutants,
             security = map security_factor mutants,
             recency = map recency_factor mutants,
             bug_history = map (bug_history_factor sc) mutants\<rparr>
      in case normalize_values (historical raw_factors) of Inl e \<Rightarrow> Inl e | Inr hs \<Rightarrow>
         case normalize_values (complexity raw_factors) of Inl e \<Rightarrow> Inl e | Inr cs \<Rightarrow>
         case normalize_values (security raw_factors) of Inl e \<Rightarrow> Inl e | Inr ss \<Rightarrow>
         case normalize_values (recency raw_factors) of Inl e \<Rightarrow> Inl e | Inr rs \<Rightarrow>
         case normalize_values (bug_history raw_factors) of Inl e \<Rightarrow> Inl e | Inr bs \<Rightarrow>
           Inr (build_result mutants
                  \<lparr>historical = hs, complexity = cs, security = ss, recency = rs,
                   bug_history = bs\<rparr>))"

text \<open>\<open>_weighted_sum\<close>: Python's \<open>sum\<close> starts from 0 and adds in the order of the keys.\<close>

definition weighted_sum :: "real factor_dict \<Rightarrow> real" where
  "weighted_sum factors =
     (0 + historical WEIGHTS * historical factors
        + complexity WEIGHTS * complexity factors
        + security WEIGHTS * security factors
        + recency WEIGHTS * recency factors
        + bug_history WEIGHTS * bug_history factors) * 10"

text \<open>\<open>_calculate_weighted_score\<close>: the lookup \<open>normalized[mutant.id]\<close> raises on a missing key.\<close>

definition calculate_weighted_score ::
  "Mutant \<Rightarrow> (string \<rightharpoonup> real factor_dict) \<Rightarrow> py_error + real" where
  "calculate_weighted_score m normalized =
     (case normalized (mutant_id m) of
        None \<Rightarrow> Inl KeyError
      | Some factors \<Rightarrow>
          Inr ((0 + historical WEIGHTS * historical factors
                  + complexity WEIGHTS * complexity factors
                  + security WEIGHTS * security factors
                  + recency WEIGHTS * recency factors
                  + bug_history WEIGHTS * bug_history factors) * 10))"

text \<open>Step 3 of \<open>score_all\<close>: every mutant's \<open>priority_score\<close> is assigned in turn.\<close>

fun assign_scores ::
  "(string \<rightharpoonup> real factor_dict) \<Rightarrow> Mutant list \<Rightarrow> py_error + Mutant list" where
  "assign_scores normalized [] = Inr []"
| "assign_scores normalized (m # ms) =
     (case calculate_weighted_score m normalized of
        Inl e \<Rightarrow> Inl e
      | Inr score \<Rightarrow>
          (case assign_scores normalized ms of
             Inl e \<Rightarrow> Inl e
           | Inr ms' \<Rightarrow> Inr (m\<lparr>priority_score := score\<rparr> # ms')))"

text \<open>
  \<open>score_all\<close>.  \<open>list.sort(key, reverse=True)\<close> is a stable descending sort: the stable
  ascending sort on the negated key.
\<close>

definition score_all :: "scorer \<Rightarrow> Mutant list \<Rightarrow> py_error + scorer \<times> Mutant list" where
  "score_all sc mutants =
     (case precompute_metrics sc mutants of
        (sc', ms1) \<Rightarrow>
          (case compute_normalized_factors sc' ms1 of
             Inl e \<Rightarrow> Inl e
           | Inr normalized_factors \<Rightarrow>
               (case assign_scores normalized_factors ms1 of
                  Inl e \<Rightarrow> Inl e
                | Inr ms2 \<Rightarrow> Inr (sc', sort_key (\<lambda>m. - priority_score m) ms2))))"

text \<open>
  \<open>score_single\<close>.  \<open>if context:\<close> holds for a non-empty list only (\<open>None\<close> and \<open>[]\<close> are
  falsy).  The result is the new scorer state and the returned score.
\<close>

definition score_single ::
  "scorer \<Rightarrow> Mutant \<Rightarrow> Mutant list option \<Rightarrow> py_error + scorer \<times> real" where
  "score_single sc m context =
     (case context of
        Some (c # cs) \<Rightarrow>
          (case score_all sc ([m] @ (c # cs)) of
             Inl e \<Rightarrow> Inl e
           | Inr (sc', scored) \<Rightarrow>
               (case scored of
                  [] \<Rightarrow> Inl IndexError
                | first # _ \<Rightarrow> Inr (sc', priority_score first)))
      | _ \<Rightarrow>
          (case precompute_metrics sc [m] of
             (sc', ms1) \<Rightarrow>
               (case ms1 of
                  [] \<Rightarrow> Inl IndexError
                | m1 # _ \<Rightarrow> Inr (sc', weighted_sum (compute_factors_single sc' m1)))))"

section \<open>Coverage mapper (core/subsumption/coverage\_mapper.py)\<close>

text \<open>\<open>CoverageMapper.compute_similarity\<close>: an empty set is falsy in Python.\<close>

definition compute_similarity :: "string set \<Rightarrow> string set \<Rightarrow> real" where
  "compute_similarity tests1 tests2 =
     (if tests1 = {} \<and> tests2 = {} then 1
      else if tests1 = {} \<or> tests2 = {} then 0
      else (let intersection = card (tests1 \<inter> tests2);
                union = card (tests1 \<union> tests2)
            in if union > 0 then real intersection / real union else 0))"

text \<open>
  Python's \<open>str\<close> of an integer, as the f-strings print \<open>line_start\<close> and
  \<open>test_hash\<close>: decimal digits, with a leading minus sign for a negative number.
\<close>

definition digit_char :: "nat \<Rightarrow> char" where
  "digit_char d = ''0123456789'' ! d"

fun str_nat :: "nat \<Rightarrow> string" where
  "str_nat n = (if n < 10 then [digit_char n] else str_nat (n div 10) @ [digit_char (n mod 10)])"

declare str_nat.simps [simp del]

definition str_int :: "int \<Rightarrow> string" where
  "str_int i = (if i < 0 then ''-'' @ str_nat (nat (- i)) else str_nat (nat i))"

text \<open>\<open>s.replace(old, new)\<close> for single characters.\<close>

definition replace_char :: "char \<Rightarrow> char \<Rightarrow> string \<Rightarrow> string" where
  "replace_char old new s = map (\<lambda>c. if c = old then new else c) s"

text \<open>The mapper object: \<open>self._cache\<close>, from location keys to test sets.\<close>

record CoverageMapper =
  cache :: "string \<rightharpoonup> string set"

text \<open>The key \<open>f"{file_path}:{line_start}"\<close> of the cache and of the hash.\<close>

definition location_key :: "Mutant \<Rightarrow> string" where
  "location_key m = file_path (location m) @ '':'' @ str_int (line_start (location m))"

text \<open>
  \<open>_generate_test_set\<close>.  The parameter \<open>md5\<close> stands for
  \<open>int(hashlib.md5(s.encode()).hexdigest(), 16)\<close>, a natural number computed by the
  Python library from the string alone.
\<close>

definition generate_test_set :: "(string \<Rightarrow> nat) \<Rightarrow> Mutant \<Rightarrow> string set" where
  "generate_test_set md5 m =
     (let location_str = location_key m;
          hash_value = md5 location_str;
          num_tests = 3 + hash_value mod 6
      in set (map (\<lambda>i. ''test_''
                      @ replace_char CHR ''.'' CHR ''_''
                          (replace_char CHR ''/'' CHR ''_'' (file_path (location m)))
                      @ ''_'' @ str_nat ((hash_value + i) mod 1000))
                [0..<num_tests]))"

definition estimate_coverage ::
  "(string \<Rightarrow> nat) \<Rightarrow> CoverageMapper \<Rightarrow> Mutant \<Rightarrow> string set \<times> CoverageMapper" where
  "estimate_coverage md5 cm m =
     (let cache_key = location_key m
      in case cache cm cache_key of
           Some tests \<Rightarrow> (tests, cm)
         | None \<Rightarrow>
             (let test_set = generate_test_set md5 m
              in (test_set, cm\<lparr>cache := (cache cm)(cache_key \<mapsto> test_set)\<rparr>)))"

text \<open>\<open>map_mutant_coverage\<close>: the loop, from a coverage map built so far.\<close>

fun map_mutant_coverage_from ::
  "(string \<Rightarrow> nat) \<Rightarrow> (string \<rightharpoonup> string set) \<Rightarrow> CoverageMapper \<Rightarrow> Mutant list
     \<Rightarrow> (string \<rightharpoonup> string set) \<times> CoverageMapper" where
  "map_mutant_coverage_from md5 coverage_map cm [] = (coverage_map, cm)"
| "map_mutant_coverage_from md5 coverage_map cm (m # ms) =
     (case estimate_coverage md5 cm m of
        (tests, cm') \<Rightarrow>
          map_mutant_coverage_from md5 (coverage_map(mutant_id m \<mapsto> tests)) cm' ms)"

definition map_mutant_coverage ::
  "(string \<Rightarrow> nat) \<Rightarrow> CoverageMapper \<Rightarrow> Mutant list
     \<Rightarrow> (string \<rightharpoonup> string set) \<times> CoverageMapper" where
  "map_mutant_coverage md5 cm mutants = map_mutant_coverage_from md5 Map.empty cm mutants"

text \<open>\<open>load_actual_coverage\<close>: \<open>dict.update\<close>, the loaded entries win.\<close>

definition load_actual_coverage ::
  "CoverageMapper \<Rightarrow> (string \<rightharpoonup> string set) \<Rightarrow> CoverageMapper" where
  "load_actual_coverage cm coverage_data = cm\<lparr>cache := cache cm ++ coverage_data\<rparr>"

section \<open>Subsumption analyzer statistics (core/subsumption/analyzer.py)\<close>

text \<open>The dictionary \<open>self.stats\<close>, with its six fixed keys.\<close>

record stats =
  total_input :: int
  exact_duplicates :: int
  coverage_subsumed :: int
  operator_subsumed :: int
  location_clustered :: int
  total_output :: int

text \<open>What \<open>get_statistics\<close> returns: the six counters and \<open>reduction_percent\<close>.\<close>

record statistics = stats +
  reduction_percent :: real

text \<open>Python's \<open>/\<close> on two integers raises \<open>ZeroDivisionError\<close> on a zero divisor.\<close>

definition py_truediv :: "int \<Rightarrow> int \<Rightarrow> py_error + real" where
  "py_truediv a b =
     (if b = 0 then Inl ZeroDivisionError else Inr (real_of_int a / real_of_int b))"

definition get_statistics :: "stats \<Rightarrow> py_error + statistics" where
  "get_statistics s =
     (if total_input s > 0
      then (case py_truediv (total_output s) (total_input s) of
              Inl e \<Rightarrow> Inl e
            | Inr q \<Rightarrow> Inr (stats.extend s (statistics.fields ((1 - q) * 100))))
      else Inr (stats.extend s (statistics.fields 0)))"

section \<open>Subsumption analyzer (core/subsumption/analyzer.py)\<close>

text \<open>The table \<open>OPERATOR_SUBSUMPTIONS\<close>, and the lookup \<open>.get(op, set())\<close> in it.\<close>

definition OPERATOR_SUBSUMPTIONS :: "MutationOperator \<rightharpoonup> MutationOperator set" where
  "OPERATOR_SUBSUMPTIONS =
     [ARITHMETIC_REPLACEMENT \<mapsto> {INCREMENT_DECREMENT},
      BOUNDARY_CONDITION \<mapsto> {NEGATE_CONDITIONAL},
      RETURN_VALUE_REPLACEMENT \<mapsto> {VOID_METHOD_CALL}]"

definition subsumed_operators :: "MutationOperator \<Rightarrow> MutationOperator set" where
  "subsumed_operators op = (case OPERATOR_SUBSUMPTIONS op of Some ops \<Rightarrow> ops | None \<Rightarrow> {})"

text \<open>The analyzer object.\<close>

record SubsumptionAnalyzer =
  coverage_mapper :: CoverageMapper
  similarity_threshold :: real
  stats :: stats

text \<open>\<open>SubsumptionAnalyzer()\<close> with its default arguments.\<close>

definition SubsumptionAnalyzer_init :: SubsumptionAnalyzer where
  "SubsumptionAnalyzer_init =
     \<lparr>coverage_mapper = \<lparr>cache = Map.empty\<rparr>, similarity_threshold = 0.90,
      stats = \<lparr>total_input = 0, exact_duplicates = 0, coverage_subsumed = 0,
               operator_subsumed = 0, location_clustered = 0, total_output = 0\<rparr>\<rparr>"

definition are_operators_related :: "MutationOperator \<Rightarrow> MutationOperator \<Rightarrow> bool" where
  "are_operators_related op1 op2 =
     (if op1 = op2 then True
      else if op2 \<in> subsumed_operators op1 then True
      else if op1 \<in> subsumed_operators op2 then True
      else if op1 \<in> {ARITHMETIC_REPLACEMENT, INCREMENT_DECREMENT}
              \<and> op2 \<in> {ARITHMETIC_REPLACEMENT, INCREMENT_DECREMENT} then True
      else if op1 \<in> {CONDITIONAL_REPLACEMENT, NEGATE_CONDITIONAL, REMOVE_CONDITIONAL,
                       BOUNDARY_CONDITION}
              \<and> op2 \<in> {CONDITIONAL_REPLACEMENT, NEGATE_CONDITIONAL, REMOVE_CONDITIONAL,
                         BOUNDARY_CONDITION} then True
      else False)"

subsection \<open>Stage 3: operator-level subsumption\<close>

text \<open>
  \<open>file_groups[mutant.location.file_path].append(mutant)\<close> on a \<open>defaultdict(list)\<close>:
  the groups in the order their files are first seen, each in input order.
\<close>

definition add_to_group ::
  "(string \<times> Mutant list) list \<Rightarrow> Mutant \<Rightarrow> (string \<times> Mutant list) list" where
  "add_to_group file_groups m =
     (let fp = file_path (location m)
      in if fp \<in> fst ` set file_groups
         then map (\<lambda>(k, g). if k = fp then (k, g @ [m]) else (k, g)) file_groups
         else file_groups @ [(fp, [m])])"

definition group_by_file :: "Mutant list \<Rightarrow> (string \<times> Mutant list) list" where
  "group_by_file mutants = foldl add_to_group [] mutants"

text \<open>
  The inner loop over \<open>file_mutants[i + 1:]\<close>, on the removal set and the statistics: a
  mutant already removed is skipped, the first one more than 5 lines away ends the loop.
\<close>

fun operator_inner ::
  "MutationOperator set \<Rightarrow> Mutant \<Rightarrow> Mutant list \<Rightarrow> string set \<times> stats
     \<Rightarrow> string set \<times> stats" where
  "operator_inner subsumed_ops m1 [] st = st"
| "operator_inner subsumed_ops m1 (m2 # rest) (to_remove, st) =
     (if mutant_id m2 \<in> to_remove then operator_inner subsumed_ops m1 rest (to_remove, st)
      else if \<bar>line_start (location m2) - line_start (location m1)\<bar> > 5
        then (to_remove, st)
      else if operator m2 \<in> subsumed_ops
        then operator_inner subsumed_ops m1 rest
               (insert (mutant_id m2) to_remove,
                st\<lparr>operator_subsumed := operator_subsumed st + 1\<rparr>)
      else operator_inner subsumed_ops m1 rest (to_remove, st))"

text \<open>The loop \<open>for i, m1 in enumerate(file_mutants)\<close>.\<close>

fun operator_outer :: "Mutant list \<Rightarrow> string set \<times> stats \<Rightarrow> string set \<times> stats" where
  "operator_outer [] st = st"
| "operator_outer (m1 # rest) st =
     (let subsumed_ops = subsumed_operators (operator m1)
      in if subsumed_ops = {} then operator_outer rest st
         else operator_outer rest (operator_inner subsumed_ops m1 rest st))"

text \<open>The loop over the files; \<open>list.sort(key=...)\<close> is a stable ascending sort.\<close>

fun operator_files ::
  "(string \<times> Mutant list) list \<Rightarrow> string set \<times> stats \<Rightarrow> string set \<times> stats" where
  "operator_files [] st = st"
| "operator_files ((fp, file_mutants) # groups) st =
     operator_files groups
       (operator_outer (sort_key (\<lambda>m. line_start (location m)) file_mutants) st)"

definition apply_operator_subsumption ::
  "SubsumptionAnalyzer \<Rightarrow> Mutant list \<Rightarrow> SubsumptionAnalyzer \<times> Mutant list" where
  "apply_operator_subsumption an mutants =
     (case operator_files (group_by_file mutants) ({}, stats an) of
        (to_remove, st) \<Rightarrow>
          (an\<lparr>stats := st\<rparr>, filter (\<lambda>m. mutant_id m \<notin> to_remove) mutants))"

subsection \<open>Stage 4: coverage-based subsumption\<close>

text \<open>\<open>coverage_map.get(m.id, set())\<close>.\<close>

definition coverage_get :: "(string \<rightharpoonup> string set) \<Rightarrow> string \<Rightarrow> string set" where
  "coverage_get coverage_map i = (case coverage_map i of Some tests \<Rightarrow> tests | None \<Rightarrow> {})"

text \<open>The inner loop \<open>for m2 in mutants[i + 1:]\<close>.\<close>

fun coverage_inner ::
  "(string \<rightharpoonup> string set) \<Rightarrow> real \<Rightarrow> Mutant \<Rightarrow> string set \<Rightarrow> Mutant list
     \<Rightarrow> string set \<times> stats \<Rightarrow> string set \<times> stats" where
  "coverage_inner coverage_map threshold m1 c1 [] st = st"
| "coverage_inner coverage_map threshold m1 c1 (m2 # rest) (to_remove, st) =
     (if mutant_id m2 \<in> to_remove
        then coverage_inner coverage_map threshold m1 c1 rest (to_remove, st)
      else if \<not> are_operators_related (operator m1) (operator m2)
        then coverage_inner coverage_map threshold m1 c1 rest (to_remove, st)
      else
        (let c2 = coverage_get coverage_map (mutant_id m2)
         in if c2 \<subseteq> c1 \<and> card c2 > 0
            then (let similarity = real (card (c1 \<inter> c2)) / real (card (c1 \<union> c2))
                  in if similarity \<ge> threshold
                     then coverage_inner coverage_map threshold m1 c1 rest
                            (insert (mutant_id m2) to_remove,
                             st\<lparr>coverage_subsumed := coverage_subsumed st + 1\<rparr>)
                     else coverage_inner coverage_map threshold m1 c1 rest (to_remove, st))
            else coverage_inner coverage_map threshold m1 c1 rest (to_remove, st)))"

text \<open>The loop \<open>for i, m1 in enumerate(mutants)\<close>.\<close>

fun coverage_outer ::
  "(string \<rightharpoonup> string set) \<Rightarrow> real \<Rightarrow> Mutant list \<Rightarrow> string set \<times> stats
     \<Rightarrow> string set \<times> stats" where
  "coverage_outer coverage_map threshold [] st = st"
| "coverage_outer coverage_map threshold (m1 # rest) (to_remove, st) =
     (if mutant_id m1 \<in> to_remove
        then coverage_outer coverage_map threshold rest (to_remove, st)
      else coverage_outer coverage_map threshold rest
             (coverage_inner coverage_map threshold m1
                (coverage_get coverage_map (mutant_id m1)) rest (to_remove, st)))"

definition apply_coverage_subsumption ::
  "(string \<Rightarrow> nat) \<Rightarrow> SubsumptionAnalyzer \<Rightarrow> Mutant list
     \<Rightarrow> SubsumptionAnalyzer \<times> Mutant list" where
  "apply_coverage_subsumption md5 an mutants =
     (case map_mutant_coverage md5 (coverage_mapper an) mutants of
        (coverage_map, cm') \<Rightarrow>
          (case coverage_outer coverage_map (similarity_threshold an) mutants ({}, stats an) of
             (to_remove, st) \<Rightarrow>
               (an\<lparr>coverage_mapper := cm', stats := st\<rparr>,
                filter (\<lambda>m. mutant_id m \<notin> to_remove) mutants)))"

text \<open>
  The test of the inner loop, as the docstring of \<open>_apply_coverage_subsumption\<close> puts
  it: \<open>m1\<close> subsumes \<open>m2\<close> when their operators are related, the coverage of \<open>m1\<close>
  contains the non-empty coverage of \<open>m2\<close>, and the similarity reaches the threshold.
\<close>

definition coverage_subsumes ::
  "(string \<rightharpoonup> string set) \<Rightarrow> real \<Rightarrow> Mutant \<Rightarrow> Mutant \<Rightarrow> bool" where
  "coverage_subsumes coverage_map threshold m1 m2 =
     (are_operators_related (operator m1) (operator m2)
      \<and> coverage_get coverage_map (mutant_id m2) \<subseteq> coverage_get coverage_map (mutant_id m1)
      \<and> card (coverage_get coverage_map (mutant_id m2)) > 0
      \<and> real (card (coverage_get coverage_map (mutant_id m1)
                     \<inter> coverage_get coverage_map (mutant_id m2)))
          / real (card (coverage_get coverage_map (mutant_id m1)
                     \<union> coverage_get coverage_map (mutant_id m2))) \<ge> threshold)"

section \<open>The spec's min-max scaling\<close>

text \<open>
  The normalisation as the specification words it: \<open>(v - min) / (max - min)\<close> over the
  batch's values, and 0.5 when \<open>max = min\<close>.  It is compared below with
  \<open>normalize_values\<close>, the source's loop.
\<close>

definition min_max_scaled :: "real list \<Rightarrow> real \<Rightarrow> real" where
  "min_max_scaled values v =
     (if Max (set values) = Min (set values) then 0.5
      else (v - Min (set values)) / (Max (set values) - Min (set values)))"

section \<open>Example inputs\<close>

text \<open>The table of \<open>HistoryTracker._initialize_defaults\<close>.\<close>

definition default_history :: "string \<rightharpoonup> HistoricalData" where
  "default_history =
     map_of (map (\<lambda>(op, gen, kill, surv).
                    (operator_value op,
                     \<lparr>hist_operator = op, times_generated = gen, times_killed = kill,
                      times_survived = surv, average_detection_time = 3\<rparr>))
       [(ARITHMETIC_REPLACEMENT, 100, 75, 25),
        (BOUNDARY_CONDITION, 100, 85, 15),
        (CONDITIONAL_REPLACEMENT, 100, 70, 30),
        (NEGATE_CONDITIONAL, 100, 80, 20),
        (RETURN_VALUE_REPLACEMENT, 100, 65, 35),
        (REMOVE_CONDITIONAL, 100, 60, 40),
        (INCREMENT_DECREMENT, 100, 72, 28),
        (LOGICAL_OPERATOR, 100, 78, 22),
        (VOID_METHOD_CALL, 100, 45, 55)])"

text \<open>
  A scorer on the default history whose analyzer finds no source file (every file gets
  \<open>CodeMetrics()\<close>) and knows of no bugs.
\<close>

definition example_scorer :: scorer where
  "example_scorer =
     \<lparr>history_data = default_history, analyze_file = (\<lambda>_. CodeMetrics_default),
      bug_history_table = Map.empty, metrics_cache = Map.empty\<rparr>"

text \<open>The constructor \<open>Mutant(id, framework_id, location, operator, original, mutated)\<close>
  with the remaining fields at their defaults.\<close>

definition new_mutant ::
  "string \<Rightarrow> string \<Rightarrow> CodeLocation \<Rightarrow> MutationOperator \<Rightarrow> string \<Rightarrow> string \<Rightarrow> Mutant" where
  "new_mutant i fid loc op orig mut =
     \<lparr>mutant_id = i, framework_id = fid, location = loc, operator = op,
      original_code = orig, mutated_code = mut, description = [], status = PENDING,
      execution_time = 0, killing_tests = [], error_message = None, code_metrics = None,
      historical_data = None, priority_score = 0, estimated_execution_time = 3\<rparr>"

text \<open>The two mutants of \<open>test_score_all_basic\<close>, first as generated, then with the
  metrics and history the test attaches.\<close>

definition example_m1 :: Mutant where
  "example_m1 =
     new_mutant ''m1'' ''pit_1''
       \<lparr>file_path = ''test.py'', line_start = 10, line_end = 10, column_start = 0,
        column_end = 10\<rparr>
       ARITHMETIC_REPLACEMENT ''a + b'' ''a - b''"

definition example_m2 :: Mutant where
  "example_m2 =
     new_mutant ''m2'' ''pit_2''
       \<lparr>file_path = ''test.py'', line_start = 20, line_end = 20, column_start = 0,
        column_end = 10\<rparr>
       BOUNDARY_CONDITION ''x < 10'' ''x <= 10''"

definition test_m1 :: Mutant where
  "test_m1 =
     example_m1\<lparr>code_metrics := Some (CodeMetrics_default\<lparr>cyclomatic_complexity := 5\<rparr>),
       historical_data :=
         Some \<lparr>hist_operator = ARITHMETIC_REPLACEMENT, times_generated = 100,
               times_killed = 80, times_survived = 20, average_detection_time = 0\<rparr>\<rparr>"

definition test_m2 :: Mutant where
  "test_m2 =
     example_m2\<lparr>code_metrics := Some (CodeMetrics_default\<lparr>cyclomatic_complexity := 15\<rparr>),
       historical_data :=
         Some \<lparr>hist_operator = BOUNDARY_CONDITION, times_generated = 100,
               times_killed = 90, times_survived = 10, average_detection_time = 0\<rparr>\<rparr>"

definition extreme_metrics :: CodeMetrics where
  "extreme_metrics =
     \<lparr>cyclomatic_complexity = 1000000, cognitive_complexity = 1000000,
      nesting_depth = 1000000, lines_of_code = 1000000, number_of_parameters = 1000000,
      is_public_api = True, is_security_critical = True, last_modified_days_ago = 0\<rparr>"

text \<open>
  A stand-in for the MD5 hash: its values on the three location keys used below are the ones
  Python computes (\<open>int(hashlib.md5(b"test.py:10").hexdigest(), 16)\<close> and so on).
\<close>

definition example_md5 :: "string \<Rightarrow> nat" where
  "example_md5 s =
     (if s = ''test.py:10'' then 291288410942298746819749584104972170215
      else if s = ''test.py:12'' then 277525959152376401451139842135290184344
      else if s = ''test.py:20'' then 29959307005964249661731297652343862928
      else 0)"

text \<open>
  Two more mutants of \<open>test.py\<close>: one on line 10 like \<open>example_m1\<close> but in another
  column, one on line 20.
\<close>

definition example_m3 :: Mutant where
  "example_m3 =
     new_mutant ''m3'' ''pit_3''
       \<lparr>file_path = ''test.py'', line_start = 10, line_end = 10, column_start = 8,
        column_end = 10\<rparr>
       ARITHMETIC_REPLACEMENT ''c * d'' ''c / d''"

definition example_m4 :: Mutant where
  "example_m4 =
     new_mutant ''m4'' ''pit_4''
       \<lparr>file_path = ''test.py'', line_start = 20, line_end = 20, column_start = 4,
        column_end = 10\<rparr>
       ARITHMETIC_REPLACEMENT ''e + f'' ''e - f''"

text \<open>
  The pair of the operator-subsumption scenario: a boundary-condition mutant and a
  negate-conditional mutant of the same file, on given lines.
\<close>

definition boundary_mutant :: "int \<Rightarrow> Mutant" where
  "boundary_mutant line =
     new_mutant ''b'' ''1''
       \<lparr>file_path = ''test.py'', line_start = line, line_end = line, column_start = 0,
        column_end = 5\<rparr>
       BOUNDARY_CONDITION ''x < 10'' ''x <= 10''"

definition negate_mutant :: "int \<Rightarrow> Mutant" where
  "negate_mutant line =
     new_mutant ''n'' ''2''
       \<lparr>file_path = ''test.py'', line_start = line, line_end = line, column_start = 0,
        column_end = 5\<rparr>
       NEGATE_CONDITIONAL ''x < 10'' ''x >= 10''"

text \<open>
  An analyzer whose mapper was given real coverage by \<open>load_actual_coverage\<close>.
\<close>

definition loaded_analyzer :: SubsumptionAnalyzer where
  "loaded_analyzer =
     SubsumptionAnalyzer_init\<lparr>coverage_mapper :=
       load_actual_coverage (coverage_mapper SubsumptionAnalyzer_init)
         [''test.py:10'' \<mapsto> {''t1'', ''t2'', ''t3'', ''t4''},
          ''test.py:20'' \<mapsto> {''t1'', ''t2''}]\<rparr>"

text \<open>
  A batch in which ids repeat: two mutants share the id \<open>i\<close> and three share the id
  \<open>d\<close>, all on line 20 of \<open>test.py\<close>.
\<close>

definition repeated_i1 :: Mutant where
  "repeated_i1 =
     new_mutant ''i'' ''pit_5''
       \<lparr>file_path = ''test.py'', line_start = 20, line_end = 20, column_start = 0,
        column_end = 3\<rparr>
       INCREMENT_DECREMENT ''k++'' ''k--''"

definition repeated_i2 :: Mutant where
  "repeated_i2 =
     new_mutant ''i'' ''pit_6''
       \<lparr>file_path = ''test.py'', line_start = 20, line_end = 20, column_start = 5,
        column_end = 12\<rparr>
       LOGICAL_OPERATOR ''p and q'' ''p or q''"

definition repeated_d1 :: Mutant where
  "repeated_d1 =
     new_mutant ''d'' ''pit_7''
       \<lparr>file_path = ''test.py'', line_start = 20, line_end = 20, column_start = 14,
        column_end = 21\<rparr>
       LOGICAL_OPERATOR ''r and s'' ''r or s''"

definition repeated_d2 :: Mutant where
  "repeated_d2 =
     new_mutant ''d'' ''pit_8''
       \<lparr>file_path = ''test.py'', line_start = 20, line_end = 20, column_start = 23,
        column_end = 27\<rparr>
       FRAMEWORK_SPECIFIC ''f(x)'' ''g(x)''"

definition repeated_d3 :: Mutant where
  "repeated_d3 =
     new_mutant ''d'' ''pit_9''
       \<lparr>file_path = ''test.py'', line_start = 20, line_end = 20, column_start = 29,
        column_end = 37\<rparr>
       RETURN_VALUE_REPLACEMENT ''return x'' ''return 0''"

definition repeated_id_batch :: "Mutant list" where
  "repeated_id_batch =
     [example_m1, repeated_i1, repeated_i2, repeated_d1, repeated_d2, repeated_d3]"

section \<open>Properties\<close>

lemmas example_defs = example_scorer_def example_m1_def example_m2_def new_mutant_def
  test_m1_def test_m2_def default_history_def CodeMetrics_default_def

lemmas scorer_defs = score_all_def score_single_def attach_metrics_def Let_def
  get_operator_history_def compute_normalized_factors_def normalize_values_def py_min_def
  py_max_def historical_factor_def complexity_factor_def security_factor_def
  recency_factor_def bug_history_factor_def get_historical_bug_count_def kill_rate_def
  build_result_def calculate_weighted_score_def weighted_sum_def compute_factors_single_def
  WEIGHTS_def

subsection \<open>Min-max normalisation\<close>

lemma py_min_Min: "values \<noteq> [] \<Longrightarrow> py_min values = Inr (Min (set values))"
  by (cases "values") (simp_all add: py_min_def Min.set_eq_fold [symmetric])

lemma py_max_Max: "values \<noteq> [] \<Longrightarrow> py_max values = Inr (Max (set values))"
  by (cases "values") (simp_all add: py_max_def Max.set_eq_fold [symmetric])

lemma normalize_values_Nil: "normalize_values [] = Inl ValueError"
  by (simp add: normalize_values_def py_min_def)

lemma normalize_values_eq:
  "values \<noteq> [] \<Longrightarrow>
   normalize_values values =
     Inr (map (\<lambda>v. if Max (set values) - Min (set values) = 0 then 1 / 2
                    else (v - Min (set values)) / (Max (set values) - Min (set values)))
            values)"
  by (simp add: normalize_values_def py_min_Min py_max_Max map_replicate_const)

lemma scaled_range:
  fixes v :: real
  assumes "v \<in> set values"
  shows "0 \<le> (if Max (set values) - Min (set values) = 0 then 1 / 2
              else (v - Min (set values)) / (Max (set values) - Min (set values)))
         \<and> (if Max (set values) - Min (set values) = 0 then 1 / 2
              else (v - Min (set values)) / (Max (set values) - Min (set values))) \<le> 1"
proof -
  have lo: "Min (set values) \<le> v" and hi: "v \<le> Max (set values)"
    using assms by simp_all
  show ?thesis
  proof (cases "Max (set values) - Min (set values) = 0")
    case True
    then show ?thesis by simp
  next
    case False
    with lo hi have pos: "0 < Max (set values) - Min (set values)" by linarith
    with lo hi show ?thesis by (simp add: False divide_le_eq_1)
  qed
qed

lemma normalize_values_scaled:
  "values \<noteq> [] \<Longrightarrow> normalize_values values = Inr (map (min_max_scaled values) values)"
  by (simp add: normalize_values_eq min_max_scaled_def)

lemma min_max_scaled_range:
  "v \<in> set values \<Longrightarrow> 0 \<le> min_max_scaled values v \<and> min_max_scaled values v \<le> 1"
  using scaled_range [of v "values"] by (auto simp: min_max_scaled_def)

lemma min_max_scaled_constant:
  assumes "\<forall>v\<in>set values. \<forall>w\<in>set values. v = w" and "values \<noteq> []"
  shows "min_max_scaled values v = 1 / 2"
proof -
  from assms(2) have "Max (set values) \<in> set values" "Min (set values) \<in> set values"
    by simp_all
  with assms(1) have "Max (set values) = Min (set values)" by blast
  then show ?thesis by (simp add: min_max_scaled_def)
qed

lemma scaled_in_batch:
  assumes "i < length mutants"
  shows "0 \<le> min_max_scaled (map r mutants) (r (mutants ! i))
     \<and> min_max_scaled (map r mutants) (r (mutants ! i)) \<le> 1
     \<and> ((\<forall>a\<in>set mutants. \<forall>b\<in>set mutants. r a = r b) \<longrightarrow>
          min_max_scaled (map r mutants) (r (mutants ! i)) = 1 / 2)"
proof -
  from assms have mem: "r (mutants ! i) \<in> set (map r mutants)" by simp
  from assms have ne: "map r mutants \<noteq> []" by auto
  have "min_max_scaled (map r mutants) (r (mutants ! i)) = 1 / 2"
    if eq: "\<forall>a\<in>set mutants. \<forall>b\<in>set mutants. r a = r b"
  proof (rule min_max_scaled_constant [OF _ ne])
    show "\<forall>v\<in>set (map r mutants). \<forall>w\<in>set (map r mutants). v = w"
    proof (intro ballI)
      fix v w assume "v \<in> set (map r mutants)" "w \<in> set (map r mutants)"
      then obtain a b where "a \<in> set mutants" "v = r a" "b \<in> set mutants" "w = r b"
        by (auto simp only: set_map)
      with eq show "v = w" by metis
    qed
  qed
  with min_max_scaled_range [OF mem] show ?thesis by blast
qed

lemma fold_upd_Cons:
  "fold (\<lambda>i r. r(k i \<mapsto> v i)) (j # js) r0 = fold (\<lambda>i r. r(k i \<mapsto> v i)) js (r0(k j \<mapsto> v j))"
  by (simp only: fold_simps comp_apply)

lemma fold_upd_Some:
  "fold (\<lambda>i r. r(k i \<mapsto> v i)) js r0 x = Some f \<Longrightarrow>
   r0 x = Some f \<or> (\<exists>i\<in>set js. k i = x \<and> f = v i)"
proof (induction js arbitrary: r0)
  case Nil
  then show ?case by simp
next
  case (Cons j js)
  from Cons.prems have "fold (\<lambda>i r. r(k i \<mapsto> v i)) js (r0(k j \<mapsto> v j)) x = Some f"
    unfolding fold_upd_Cons .
  from Cons.IH [OF this] show ?case
    by (auto split: if_splits)
qed

lemma fold_upd_keeps:
  "r0 x \<noteq> None \<Longrightarrow> fold (\<lambda>i r. r(k i \<mapsto> v i)) js r0 x \<noteq> None"
proof (induction js arbitrary: r0)
  case Nil
  then show ?case by simp
next
  case (Cons j js)
  from Cons.prems have "(r0(k j \<mapsto> v j)) x \<noteq> None" by simp
  then have "fold (\<lambda>i r. r(k i \<mapsto> v i)) js (r0(k j \<mapsto> v j)) x \<noteq> None"
    by (rule Cons.IH)
  then show ?case unfolding fold_upd_Cons .
qed

lemma fold_upd_dom:
  "i \<in> set js \<Longrightarrow> fold (\<lambda>i r. r(k i \<mapsto> v i)) js r0 (k i) \<noteq> None"
proof (induction js arbitrary: r0)
  case Nil
  then show ?case by simp
next
  case (Cons j js)
  show ?case
  proof (cases "i = j")
    case True
    have "(r0(k j \<mapsto> v j)) (k j) \<noteq> None" by simp
    then have "fold (\<lambda>i r. r(k i \<mapsto> v i)) js (r0(k j \<mapsto> v j)) (k j) \<noteq> None"
      by (rule fold_upd_keeps)
    with True show ?thesis unfolding fold_upd_Cons by simp
  next
    case False
    with Cons.prems have "i \<in> set js" by simp
    then have "fold (\<lambda>i r. r(k i \<mapsto> v i)) js (r0(k j \<mapsto> v j)) (k i) \<noteq> None"
      by (rule Cons.IH)
    then show ?thesis unfolding fold_upd_Cons .
  qed
qed

lemma build_result_Some:
  assumes "build_result mutants normalized x = Some f"
  shows "\<exists>i<length mutants. mutant_id (mutants ! i) = x \<and>
           f = \<lparr>historical = historical normalized ! i,
                complexity = complexity normalized ! i,
                security = security normalized ! i,
                recency = recency normalized ! i,
                bug_history = bug_history normalized ! i\<rparr>"
  using fold_upd_Some [OF assms [unfolded build_result_def]] by auto

lemma build_result_dom:
  assumes "m \<in> set mutants"
  shows "build_result mutants normalized (mutant_id m) \<noteq> None"
proof -
  from assms obtain i where i: "i < length mutants" "mutants ! i = m"
    by (auto simp: in_set_conv_nth)
  then have "i \<in> set [0..<length mutants]" by simp
  from fold_upd_dom [OF this, of "\<lambda>i. mutant_id (mutants ! i)"] i(2)
  show ?thesis unfolding build_result_def by simp
qed

lemma compute_normalized_factors_Nil:
  "compute_normalized_factors sc [] = Inl ValueError"
  by (simp add: compute_normalized_factors_def normalize_values_Nil)

lemma compute_normalized_factors_eq:
  assumes "mutants \<noteq> []"
  shows "compute_normalized_factors sc mutants =
     Inr (build_result mutants
       \<lparr>historical = map (min_max_scaled (map historical_factor mutants))
                        (map historical_factor mutants),
        complexity = map (min_max_scaled (map complexity_factor mutants))
                        (map complexity_factor mutants),
        security = map (min_max_scaled (map security_factor mutants))
                        (map security_factor mutants),
        recency = map (min_max_scaled (map recency_factor mutants))
                        (map recency_factor mutants),
        bug_history = map (min_max_scaled (map (bug_history_factor sc) mutants))
                        (map (bug_history_factor sc) mutants)\<rparr>)"
  using assms by (simp add: compute_normalized_factors_def normalize_values_scaled)

lemma compute_normalized_factors_Inr:
  "mutants \<noteq> [] \<Longrightarrow> \<exists>nf. compute_normalized_factors sc mutants = Inr nf"
  by (simp add: compute_normalized_factors_eq)

lemma normalized_lookup:
  assumes "compute_normalized_factors sc mutants = Inr nf" and "m \<in> set mutants"
  shows "\<exists>f. nf (mutant_id m) = Some f"
proof -
  from assms(2) have ne: "mutants \<noteq> []" by auto
  from assms(1) have "\<exists>nm. nf = build_result mutants nm"
    unfolding compute_normalized_factors_eq [OF ne] sum.inject by (intro exI) (rule sym)
  then obtain nm where "nf = build_result mutants nm" ..
  then have "nf (mutant_id m) \<noteq> None"
    by (simp only: build_result_dom [OF assms(2)] not_False_eq_True)
  then show ?thesis by simp
qed

lemma normalized_entry:
  assumes "compute_normalized_factors sc mutants = Inr normalized"
    and "normalized x = Some f"
  shows "\<exists>i<length mutants. mutant_id (mutants ! i) = x \<and>
     f = \<lparr>historical = min_max_scaled (map historical_factor mutants)
                         (historical_factor (mutants ! i)),
          complexity = min_max_scaled (map complexity_factor mutants)
                         (complexity_factor (mutants ! i)),
          security = min_max_scaled (map security_factor mutants)
                         (security_factor (mutants ! i)),
          recency = min_max_scaled (map recency_factor mutants)
                         (recency_factor (mutants ! i)),
          bug_history = min_max_scaled (map (bug_history_factor sc) mutants)
                         (bug_history_factor sc (mutants ! i))\<rparr>"
proof -
  from assms(1) have ne: "mutants \<noteq> []"
    by (auto simp: compute_normalized_factors_Nil)
  from assms compute_normalized_factors_eq [OF ne, of sc]
  have "build_result mutants
       \<lparr>historical = map (min_max_scaled (map historical_factor mutants))
                        (map historical_factor mutants),
        complexity = map (min_max_scaled (map complexity_factor mutants))
                        (map complexity_factor mutants),
        security = map (min_max_scaled (map security_factor mutants))
                        (map security_factor mutants),
        recency = map (min_max_scaled (map recency_factor mutants))
                        (map recency_factor mutants),
        bug_history = map (min_max_scaled (map (bug_history_factor sc) mutants))
                        (map (bug_history_factor sc) mutants)\<rparr> x = Some f"
    by simp
  from build_result_Some [OF this] show ?thesis by auto
qed

lemma normalized_entry_range:
  assumes "compute_normalized_factors sc mutants = Inr normalized"
    and "normalized x = Some f"
  shows "0 \<le> historical f \<and> historical f \<le> 1 \<and> 0 \<le> complexity f \<and> complexity f \<le> 1
     \<and> 0 \<le> security f \<and> security f \<le> 1 \<and> 0 \<le> recency f \<and> recency f \<le> 1
     \<and> 0 \<le> bug_history f \<and> bug_history f \<le> 1"
proof -
  from normalized_entry [OF assms] obtain i where i: "i < length mutants"
    and f: "f = \<lparr>historical = min_max_scaled (map historical_factor mutants)
                         (historical_factor (mutants ! i)),
          complexity = min_max_scaled (map complexity_factor mutants)
                         (complexity_factor (mutants ! i)),
          security = min_max_scaled (map security_factor mutants)
                         (security_factor (mutants ! i)),
          recency = min_max_scaled (map recency_factor mutants)
                         (recency_factor (mutants ! i)),
          bug_history = min_max_scaled (map (bug_history_factor sc) mutants)
                         (bug_history_factor sc (mutants ! i))\<rparr>"
    by blast
  have mem: "\<And>g. g (mutants ! i) \<in> set (map g mutants)"
    using i by simp
  show ?thesis
    unfolding f using min_max_scaled_range [OF mem] by simp
qed

lemma normalized_entry_fields:
  assumes "compute_normalized_factors sc mutants = Inr normalized"
    and "normalized x = Some f"
  shows "\<exists>i<length mutants. mutant_id (mutants ! i) = x \<and>
     historical f = min_max_scaled (map (\<lambda>a. historical (compute_factors_single sc a)) mutants)
          (historical (compute_factors_single sc (mutants ! i))) \<and>
     complexity f = min_max_scaled (map (\<lambda>a. complexity (compute_factors_single sc a)) mutants)
          (complexity (compute_factors_single sc (mutants ! i))) \<and>
     security f = min_max_scaled (map (\<lambda>a. security (compute_factors_single sc a)) mutants)
          (security (compute_factors_single sc (mutants ! i))) \<and>
     recency f = min_max_scaled (map (\<lambda>a. recency (compute_factors_single sc a)) mutants)
          (recency (compute_factors_single sc (mutants ! i))) \<and>
     bug_history f = min_max_scaled (map (\<lambda>a. bug_history (compute_factors_single sc a)) mutants)
          (bug_history (compute_factors_single sc (mutants ! i)))"
proof -
  from normalized_entry [OF assms] obtain i where i: "i < length mutants"
    and id: "mutant_id (mutants ! i) = x"
    and fe: "f = \<lparr>historical = min_max_scaled (map historical_factor mutants)
                         (historical_factor (mutants ! i)),
          complexity = min_max_scaled (map complexity_factor mutants)
                         (complexity_factor (mutants ! i)),
          security = min_max_scaled (map security_factor mutants)
                         (security_factor (mutants ! i)),
          recency = min_max_scaled (map recency_factor mutants)
                         (recency_factor (mutants ! i)),
          bug_history = min_max_scaled (map (bug_history_factor sc) mutants)
                         (bug_history_factor sc (mutants ! i))\<rparr>"
    by blast
  have "historical f = min_max_scaled (map (\<lambda>a. historical (compute_factors_single sc a)) mutants)
          (historical (compute_factors_single sc (mutants ! i)))"
    by (simp add: fe compute_factors_single_def)
  moreover have "complexity f = min_max_scaled (map (\<lambda>a. complexity (compute_factors_single sc a)) mutants)
          (complexity (compute_factors_single sc (mutants ! i)))"
    by (simp add: fe compute_factors_single_def)
  moreover have "security f = min_max_scaled (map (\<lambda>a. security (compute_factors_single sc a)) mutants)
          (security (compute_factors_single sc (mutants ! i)))"
    by (simp add: fe compute_factors_single_def)
  moreover have "recency f = min_max_scaled (map (\<lambda>a. recency (compute_factors_single sc a)) mutants)
          (recency (compute_factors_single sc (mutants ! i)))"
    by (simp add: fe compute_factors_single_def)
  moreover have "bug_history f = min_max_scaled (map (\<lambda>a. bug_history (compute_factors_single sc a)) mutants)
          (bug_history (compute_factors_single sc (mutants ! i)))"
    by (simp add: fe compute_factors_single_def)
  ultimately show ?thesis using i id by (intro exI [of _ i] conjI)
qed

text \<open>
  Claim C2.  On a non-empty batch \<open>_compute_normalized_factors\<close> returns, and the entry
  of every mutant holds, for each of the five factors, the min-max scaled value
  \<open>(v - min) / (max - min)\<close> of a mutant with that id; the value lies in [0, 1], and it is
  0.5 when all raw values of the factor in the batch are equal.
\<close>

theorem normalized_factors_unit_interval:
  "mutants \<noteq> [] \<longrightarrow>
     (\<exists>normalized. compute_normalized_factors sc mutants = Inr normalized \<and>
        (\<forall>m\<in>set mutants. \<exists>factors i.
           normalized (mutant_id m) = Some factors \<and>
           i < length mutants \<and> mutant_id (mutants ! i) = mutant_id m \<and>
           (\<forall>g\<in>{historical, complexity, security, recency, bug_history}.
              g factors =
                min_max_scaled (map (\<lambda>a. g (compute_factors_single sc a)) mutants)
                  (g (compute_factors_single sc (mutants ! i))) \<and>
              0 \<le> g factors \<and> g factors \<le> 1 \<and>
              ((\<forall>a\<in>set mutants. \<forall>b\<in>set mutants.
                   g (compute_factors_single sc a) = g (compute_factors_single sc b)) \<longrightarrow>
                 g factors = 1 / 2))))"
proof
  assume ne: "mutants \<noteq> []"
  from compute_normalized_factors_Inr [OF ne]
  obtain nf where nf: "compute_normalized_factors sc mutants = Inr nf" ..
  have per: "\<exists>factors i.
           nf (mutant_id m) = Some factors \<and>
           i < length mutants \<and> mutant_id (mutants ! i) = mutant_id m \<and>
           (\<forall>g\<in>{historical, complexity, security, recency, bug_history}.
              g factors =
                min_max_scaled (map (\<lambda>a. g (compute_factors_single sc a)) mutants)
                  (g (compute_factors_single sc (mutants ! i))) \<and>
              0 \<le> g factors \<and> g factors \<le> 1 \<and>
              ((\<forall>a\<in>set mutants. \<forall>b\<in>set mutants.
                   g (compute_factors_single sc a) = g (compute_factors_single sc b)) \<longrightarrow>
                 g factors = 1 / 2))" if m: "m \<in> set mutants" for m
  proof -
    from normalized_lookup [OF nf m] obtain f where f: "nf (mutant_id m) = Some f" ..
    from normalized_entry_fields [OF nf f] obtain i where i: "i < length mutants"
      and id: "mutant_id (mutants ! i) = mutant_id m"
      and h: "historical f =
        min_max_scaled (map (\<lambda>a. historical (compute_factors_single sc a)) mutants)
          (historical (compute_factors_single sc (mutants ! i)))"
      and c: "complexity f =
        min_max_scaled (map (\<lambda>a. complexity (compute_factors_single sc a)) mutants)
          (complexity (compute_factors_single sc (mutants ! i)))"
      and s: "security f =
        min_max_scaled (map (\<lambda>a. security (compute_factors_single sc a)) mutants)
          (security (compute_factors_single sc (mutants ! i)))"
      and r: "recency f =
        min_max_scaled (map (\<lambda>a. recency (compute_factors_single sc a)) mutants)
          (recency (compute_factors_single sc (mutants ! i)))"
      and b: "bug_history f =
        min_max_scaled (map (\<lambda>a. bug_history (compute_factors_single sc a)) mutants)
          (bug_history (compute_factors_single sc (mutants ! i)))"
      by (elim exE conjE)
    note sb = scaled_in_batch [OF i]
    let ?P = "\<lambda>g :: real factor_dict \<Rightarrow> real.
              g f =
                min_max_scaled (map (\<lambda>a. g (compute_factors_single sc a)) mutants)
                  (g (compute_factors_single sc (mutants ! i))) \<and>
              0 \<le> g f \<and> g f \<le> 1 \<and>
              ((\<forall>a\<in>set mutants. \<forall>b\<in>set mutants.
                   g (compute_factors_single sc a) = g (compute_factors_single sc b)) \<longrightarrow>
                 g f = 1 / 2)"
    have H: "?P historical"
      using sb [of "\<lambda>a. historical (compute_factors_single sc a)"]
      by (simp only: h simp_thms) (elim conjE, assumption)
    have C: "?P complexity"
      using sb [of "\<lambda>a. complexity (compute_factors_single sc a)"]
      by (simp only: c simp_thms) (elim conjE, assumption)
    have S: "?P security"
      using sb [of "\<lambda>a. security (compute_factors_single sc a)"]
      by (simp only: s simp_thms) (elim conjE, assumption)
    have R: "?P recency"
      using sb [of "\<lambda>a. recency (compute_factors_single sc a)"]
      by (simp only: r simp_thms) (elim conjE, assumption)
    have B: "?P bug_history"
      using sb [of "\<lambda>a. bug_history (compute_factors_single sc a)"]
      by (simp only: b simp_thms) (elim conjE, assumption)
    have all: "\<forall>g\<in>{historical, complexity, security, recency, bug_history}. ?P g"
      by (intro ballI, elim insertE emptyE) (hypsubst, rule H C S R B)+
    show ?thesis
      by (intro exI [of _ f] exI [of _ i] conjI) (rule f i id all)+
  qed
  show "\<exists>normalized. compute_normalized_factors sc mutants = Inr normalized \<and>
        (\<forall>m\<in>set mutants. \<exists>factors i.
           normalized (mutant_id m) = Some factors \<and>
           i < length mutants \<and> mutant_id (mutants ! i) = mutant_id m \<and>
           (\<forall>g\<in>{historical, complexity, security, recency, bug_history}.
              g factors =
                min_max_scaled (map (\<lambda>a. g (compute_factors_single sc a)) mutants)
                  (g (compute_factors_single sc (mutants ! i))) \<and>
              0 \<le> g factors \<and> g factors \<le> 1 \<and>
              ((\<forall>a\<in>set mutants. \<forall>b\<in>set mutants.
                   g (compute_factors_single sc a) = g (compute_factors_single sc b)) \<longrightarrow>
                 g factors = 1 / 2)))"
    by (intro exI [of _ nf] conjI ballI) (rule nf, rule per)
qed

theorem normalized_factors_unit_interval_witness:
  "(case compute_normalized_factors example_scorer [test_m1, test_m2] of
      Inl e \<Rightarrow> False
    | Inr normalized \<Rightarrow>
        normalized ''m1'' = Some \<lparr>historical = 0, complexity = 0, security = 1 / 2,
                                 recency = 1 / 2, bug_history = 1 / 2\<rparr>
        \<and> normalized ''m2'' = Some \<lparr>historical = 1, complexity = 1, security = 1 / 2,
                                 recency = 1 / 2, bug_history = 1 / 2\<rparr>)
   \<and> (\<exists>normalized. compute_normalized_factors example_scorer [test_m1, test_m2]
          = Inr normalized
        \<and> (\<exists>factors. normalized (mutant_id test_m1) = Some factors
              \<and> 0 \<le> historical factors \<and> historical factors \<le> 1
              \<and> security factors = 1 / 2))"
proof
  show "case compute_normalized_factors example_scorer [test_m1, test_m2] of
      Inl e \<Rightarrow> False
    | Inr normalized \<Rightarrow>
        normalized ''m1'' = Some \<lparr>historical = 0, complexity = 0, security = 1 / 2,
                                 recency = 1 / 2, bug_history = 1 / 2\<rparr>
        \<and> normalized ''m2'' = Some \<lparr>historical = 1, complexity = 1, security = 1 / 2,
                                 recency = 1 / 2, bug_history = 1 / 2\<rparr>"
    by (simp add: scorer_defs example_defs)
  have ne: "[test_m1, test_m2] \<noteq> []" by simp
  have sec: "\<forall>a\<in>set [test_m1, test_m2]. \<forall>b\<in>set [test_m1, test_m2].
      security (compute_factors_single example_scorer a)
        = security (compute_factors_single example_scorer b)"
    by (simp add: scorer_defs example_defs)
  from normalized_factors_unit_interval [of "[test_m1, test_m2]" example_scorer] ne
  obtain nf where nf: "compute_normalized_factors example_scorer [test_m1, test_m2] = Inr nf"
    and all: "\<forall>m\<in>set [test_m1, test_m2]. \<exists>factors i.
           nf (mutant_id m) = Some factors \<and>
           i < length [test_m1, test_m2] \<and> mutant_id ([test_m1, test_m2] ! i) = mutant_id m \<and>
           (\<forall>g\<in>{historical, complexity, security, recency, bug_history}.
              g factors =
                min_max_scaled
                  (map (\<lambda>a. g (compute_factors_single example_scorer a)) [test_m1, test_m2])
                  (g (compute_factors_single example_scorer ([test_m1, test_m2] ! i))) \<and>
              0 \<le> g factors \<and> g factors \<le> 1 \<and>
              ((\<forall>a\<in>set [test_m1, test_m2]. \<forall>b\<in>set [test_m1, test_m2].
                   g (compute_factors_single example_scorer a)
                     = g (compute_factors_single example_scorer b)) \<longrightarrow>
                 g factors = 1 / 2))"
    by (elim impE exE conjE)
  from all have "\<exists>factors i.
           nf (mutant_id test_m1) = Some factors \<and>
           i < length [test_m1, test_m2] \<and> mutant_id ([test_m1, test_m2] ! i) = mutant_id test_m1 \<and>
           (\<forall>g\<in>{historical, complexity, security, recency, bug_history}.
              g factors =
                min_max_scaled
                  (map (\<lambda>a. g (compute_factors_single example_scorer a)) [test_m1, test_m2])
                  (g (compute_factors_single example_scorer ([test_m1, test_m2] ! i))) \<and>
              0 \<le> g factors \<and> g factors \<le> 1 \<and>
              ((\<forall>a\<in>set [test_m1, test_m2]. \<forall>b\<in>set [test_m1, test_m2].
                   g (compute_factors_single example_scorer a)
                     = g (compute_factors_single example_scorer b)) \<longrightarrow>
                 g factors = 1 / 2))"
    by (rule bspec) simp
  then obtain f where f: "nf (mutant_id test_m1) = Some f"
    and g: "\<forall>g\<in>{historical, complexity, security, recency, bug_history}.
              0 \<le> g f \<and> g f \<le> 1 \<and>
              ((\<forall>a\<in>set [test_m1, test_m2]. \<forall>b\<in>set [test_m1, test_m2].
                   g (compute_factors_single example_scorer a)
                     = g (compute_factors_single example_scorer b)) \<longrightarrow>
                 g f = 1 / 2)"
    by (elim exE conjE) (rule that, assumption, intro ballI, drule (1) bspec, elim conjE, intro conjI, assumption+)
  from g have h: "0 \<le> historical f \<and> historical f \<le> 1"
    by (elim ballE [of _ _ historical]) (simp_all only: insert_iff simp_thms)
  from g sec have s: "security f = 1 / 2"
    by (elim ballE [of _ _ security]) (simp_all only: insert_iff simp_thms)
  show "\<exists>normalized. compute_normalized_factors example_scorer [test_m1, test_m2]
          = Inr normalized
        \<and> (\<exists>factors. normalized (mutant_id test_m1) = Some factors
              \<and> 0 \<le> historical factors \<and> historical factors \<le> 1
              \<and> security factors = 1 / 2)"
    using nf f h s by (intro exI [of _ nf] exI [of _ f] conjI) (elim conjE, assumption)+
qed

subsection \<open>Priority scores\<close>

lemma attach_metrics_id:
  "attach_metrics sc m = (sc', m') \<Longrightarrow> mutant_id m' = mutant_id m"
  by (auto simp: attach_metrics_def Let_def)

lemma precompute_metrics_ids:
  "precompute_metrics sc mutants = (sc', ms') \<Longrightarrow> map mutant_id ms' = map mutant_id mutants"
proof (induction mutants arbitrary: sc sc' ms')
  case Nil
  then show ?case by simp
next
  case (Cons m mutants)
  obtain sc1 m1 where a: "attach_metrics sc m = (sc1, m1)" by (cases "attach_metrics sc m")
  obtain sc2 ms2 where p: "precompute_metrics sc1 mutants = (sc2, ms2)"
    by (cases "precompute_metrics sc1 mutants")
  from Cons.prems a p have "ms' = m1 # ms2" by simp
  with Cons.IH [OF p] attach_metrics_id [OF a] show ?case by simp
qed

lemma weighted_range:
  fixes f :: "real factor_dict"
  assumes "0 \<le> historical f \<and> historical f \<le> 1 \<and> 0 \<le> complexity f \<and> complexity f \<le> 1
     \<and> 0 \<le> security f \<and> security f \<le> 1 \<and> 0 \<le> recency f \<and> recency f \<le> 1
     \<and> 0 \<le> bug_history f \<and> bug_history f \<le> 1"
  shows "0 \<le> (0 + historical WEIGHTS * historical f + complexity WEIGHTS * complexity f
            + security WEIGHTS * security f + recency WEIGHTS * recency f
            + bug_history WEIGHTS * bug_history f) * 10
       \<and> (0 + historical WEIGHTS * historical f + complexity WEIGHTS * complexity f
            + security WEIGHTS * security f + recency WEIGHTS * recency f
            + bug_history WEIGHTS * bug_history f) * 10 \<le> 10"
  using assms by (simp add: WEIGHTS_def)

lemma assign_scores_total:
  "(\<And>m. m \<in> set mutants \<Longrightarrow> normalized (mutant_id m) \<noteq> None) \<Longrightarrow>
   \<exists>ms'. assign_scores normalized mutants = Inr ms'"
proof (induction mutants)
  case Nil
  show ?case by simp
next
  case (Cons m mutants)
  from Cons.prems have "normalized (mutant_id m) \<noteq> None" by simp
  then obtain f where f: "normalized (mutant_id m) = Some f" by blast
  from Cons.IH Cons.prems obtain ms' where "assign_scores normalized mutants = Inr ms'"
    by auto
  with f show ?case by (simp add: calculate_weighted_score_def)
qed

lemma assign_scores_sound:
  "assign_scores normalized mutants = Inr ms' \<Longrightarrow>
   map mutant_id ms' = map mutant_id mutants \<and>
   (\<forall>m'\<in>set ms'. calculate_weighted_score m' normalized = Inr (priority_score m'))"
proof (induction mutants arbitrary: ms')
  case Nil
  then show ?case by simp
next
  case (Cons m mutants)
  from Cons.prems obtain score ms2 where
    s: "calculate_weighted_score m normalized = Inr score"
    and r: "assign_scores normalized mutants = Inr ms2"
    and e: "ms' = m\<lparr>priority_score := score\<rparr> # ms2"
    by (auto split: sum.splits)
  from s have "calculate_weighted_score (m\<lparr>priority_score := score\<rparr>) normalized = Inr score"
    by (simp add: calculate_weighted_score_def)
  with Cons.IH [OF r] e show ?case by simp
qed

lemma score_all_Nil: "score_all sc [] = Inl ValueError"
  by (simp add: score_all_def compute_normalized_factors_Nil)

text \<open>
  Claim C1.  \<open>score_all\<close> raises \<open>ValueError\<close> on the empty batch only; on every
  other batch it returns the same mutants (same ids, same number), and each returned
  \<open>priority_score\<close> lies in [0, 10].
\<close>

theorem score_all_priority_range:
  "(mutants = [] \<longrightarrow> score_all sc mutants = Inl ValueError)
   \<and> (mutants \<noteq> [] \<longrightarrow>
        (\<exists>sc' scored. score_all sc mutants = Inr (sc', scored)
           \<and> length scored = length mutants
           \<and> mutant_id ` set scored = mutant_id ` set mutants
           \<and> (\<forall>m\<in>set scored. 0 \<le> priority_score m \<and> priority_score m \<le> 10)))"
proof (intro conjI impI)
  assume "mutants = []"
  then show "score_all sc mutants = Inl ValueError" by (simp add: score_all_Nil)
next
  assume ne: "mutants \<noteq> []"
  obtain sc' ms1 where p: "precompute_metrics sc mutants = (sc', ms1)"
    by (cases "precompute_metrics sc mutants")
  from precompute_metrics_ids [OF p] have ids1: "map mutant_id ms1 = map mutant_id mutants" .
  with ne have ne1: "ms1 \<noteq> []" by auto
  from compute_normalized_factors_eq [OF ne1, of sc']
  obtain nf where nf: "compute_normalized_factors sc' ms1 = Inr nf"
    and nf_eq: "nf = build_result ms1
       \<lparr>historical = map (min_max_scaled (map historical_factor ms1))
                        (map historical_factor ms1),
        complexity = map (min_max_scaled (map complexity_factor ms1))
                        (map complexity_factor ms1),
        security = map (min_max_scaled (map security_factor ms1))
                        (map security_factor ms1),
        recency = map (min_max_scaled (map recency_factor ms1))
                        (map recency_factor ms1),
        bug_history = map (min_max_scaled (map (bug_history_factor sc') ms1))
                        (map (bug_history_factor sc') ms1)\<rparr>"
    by blast
  have "\<And>m. m \<in> set ms1 \<Longrightarrow> nf (mutant_id m) \<noteq> None"
    unfolding nf_eq by (rule build_result_dom)
  from assign_scores_total [of ms1 nf, OF this]
  obtain ms2 where a: "assign_scores nf ms1 = Inr ms2" by blast
  from assign_scores_sound [OF a]
  have ids2: "map mutant_id ms2 = map mutant_id ms1"
    and sc2: "\<forall>m'\<in>set ms2. calculate_weighted_score m' nf = Inr (priority_score m')"
    by simp_all
  let ?scored = "sort_key (\<lambda>m. - priority_score m) ms2"
  have res: "score_all sc mutants = Inr (sc', ?scored)"
    by (simp add: score_all_def p nf a)
  have len: "length ?scored = length mutants"
    using ids1 ids2 by (metis length_map length_sort)
  have "set (map mutant_id ms2) = set (map mutant_id mutants)"
    using ids1 ids2 by simp
  then have idset: "mutant_id ` set ?scored = mutant_id ` set mutants"
    by simp
  have rng: "\<forall>m\<in>set ?scored. 0 \<le> priority_score m \<and> priority_score m \<le> 10"
  proof
    fix m assume "m \<in> set ?scored"
    then have m: "m \<in> set ms2" by simp
    with sc2 have c: "calculate_weighted_score m nf = Inr (priority_score m)" by blast
    then obtain f where f: "nf (mutant_id m) = Some f"
      by (auto simp: calculate_weighted_score_def split: option.splits)
    from normalized_entry_range [OF nf f] have "0 \<le> historical f \<and> historical f \<le> 1
       \<and> 0 \<le> complexity f \<and> complexity f \<le> 1
       \<and> 0 \<le> security f \<and> security f \<le> 1 \<and> 0 \<le> recency f \<and> recency f \<le> 1
       \<and> 0 \<le> bug_history f \<and> bug_history f \<le> 1" .
    from weighted_range [OF this] c f
    show "0 \<le> priority_score m \<and> priority_score m \<le> 10"
      by (simp add: calculate_weighted_score_def)
  qed
  from res len idset rng
  show "\<exists>sc' scored. score_all sc mutants = Inr (sc', scored)
           \<and> length scored = length mutants
           \<and> mutant_id ` set scored = mutant_id ` set mutants
           \<and> (\<forall>m\<in>set scored. 0 \<le> priority_score m \<and> priority_score m \<le> 10)"
    by blast
qed

theorem score_all_priority_range_witness:
  "map_sum id (map priority_score \<circ> snd) (score_all example_scorer [example_m1, example_m2])
     = Inr [13 / 2, 7 / 2]
   \<and> (\<exists>sc' scored. score_all example_scorer [example_m1, example_m2] = Inr (sc', scored)
          \<and> length scored = 2
          \<and> (\<forall>m\<in>set scored. 0 \<le> priority_score m \<and> priority_score m \<le> 10))"
proof
  show "map_sum id (map priority_score \<circ> snd)
          (score_all example_scorer [example_m1, example_m2]) = Inr [13 / 2, 7 / 2]"
    by (simp add: scorer_defs example_defs)
  have "[example_m1, example_m2] \<noteq> []" by simp
  with score_all_priority_range [of "[example_m1, example_m2]" example_scorer]
  show "\<exists>sc' scored. score_all example_scorer [example_m1, example_m2] = Inr (sc', scored)
          \<and> length scored = 2
          \<and> (\<forall>m\<in>set scored. 0 \<le> priority_score m \<and> priority_score m \<le> 10)"
    by auto
qed

subsection \<open>Standalone scoring\<close>

lemma normalize_values_single: "normalize_values [v] = Inr [1 / 2]"
  by (simp add: normalize_values_def py_min_def py_max_def)

lemma compute_normalized_factors_single:
  "compute_normalized_factors sc [m] =
     Inr (Map.empty(mutant_id m \<mapsto>
            \<lparr>historical = 1 / 2, complexity = 1 / 2, security = 1 / 2, recency = 1 / 2,
             bug_history = 1 / 2\<rparr>))"
  by (simp add: compute_normalized_factors_def normalize_values_single build_result_def)

lemma score_all_single:
  "score_all sc [m] =
     Inr (fst (attach_metrics sc m), [(snd (attach_metrics sc m))\<lparr>priority_score := 5\<rparr>])"
proof (cases "attach_metrics sc m")
  case (Pair sc1 m1)
  then show ?thesis
    by (simp add: score_all_def compute_normalized_factors_single
        calculate_weighted_score_def WEIGHTS_def)
qed

lemma score_single_no_context:
  "score_single sc m None =
     Inr (fst (attach_metrics sc m),
          weighted_sum (compute_factors_single (fst (attach_metrics sc m))
                          (snd (attach_metrics sc m))))"
proof (cases "attach_metrics sc m")
  case (Pair sc1 m1)
  then show ?thesis by (simp add: score_single_def)
qed

text \<open>
  Claim C3, as the code has it.  Without context \<open>score_single\<close> returns ten times
  the weighted sum of the mutant's raw factors, while \<open>score_all\<close> on the singleton batch
  normalises every factor to 0.5 and so scores the mutant 5.
\<close>

theorem score_single_standalone:
  "score_single sc m None =
     Inr (fst (attach_metrics sc m),
          10 * (0.30 * historical_factor (snd (attach_metrics sc m))
              + 0.25 * complexity_factor (snd (attach_metrics sc m))
              + 0.20 * security_factor (snd (attach_metrics sc m))
              + 0.15 * recency_factor (snd (attach_metrics sc m))
              + 0.10 * bug_history_factor (fst (attach_metrics sc m))
                         (snd (attach_metrics sc m))))
   \<and> score_all sc [m] =
     Inr (fst (attach_metrics sc m), [(snd (attach_metrics sc m))\<lparr>priority_score := 5\<rparr>])"
  by (simp add: score_single_no_context score_all_single weighted_sum_def
      compute_factors_single_def WEIGHTS_def)

theorem score_single_standalone_witness:
  "map_sum id snd (score_single example_scorer test_m1 None)
     = Inr (9 / 4 + 3 / 2 * exp (- (999 / 10)))
   \<and> map_sum id (map priority_score \<circ> snd) (score_all example_scorer [test_m1]) = Inr [5]"
  using score_single_standalone [of example_scorer test_m1]
  by (simp add: scorer_defs example_defs)

text \<open>
  Claim C3 as stated fails: for the first mutant of the scoring test, on the default
  history and default metrics, \<open>score_single\<close> returns \<open>2.25 + 1.5 * exp (-99.9)\<close> and
  \<open>score_all\<close> on the singleton batch gives 5.
\<close>

theorem score_single_differs_from_singleton_batch:
  "map_sum id snd (score_single example_scorer example_m1 None)
     = Inr (9 / 4 + 3 / 2 * exp (- (999 / 10)))
   \<and> map_sum id (map priority_score \<circ> snd) (score_all example_scorer [example_m1]) = Inr [5]
   \<and> 9 / 4 + 3 / 2 * exp (- (999 / 10)) \<noteq> (5 :: real)"
proof (intro conjI)
  show "map_sum id snd (score_single example_scorer example_m1 None)
     = Inr (9 / 4 + 3 / 2 * exp (- (999 / 10)))"
    by (simp add: scorer_defs example_defs)
  show "map_sum id (map priority_score \<circ> snd) (score_all example_scorer [example_m1]) = Inr [5]"
    by (simp add: scorer_defs example_defs)
  have "exp (- (999 / 10)) \<le> (1 :: real)" by simp
  then show "9 / 4 + 3 / 2 * exp (- (999 / 10)) \<noteq> (5 :: real)" by linarith
qed

subsection \<open>Complexity factor\<close>

lemma complexity_factor_le_1: "complexity_factor m \<le> 1"
proof (cases "code_metrics m")
  case None
  then show ?thesis by (simp add: complexity_factor_def)
next
  case (Some metrics)
  have "min (real_of_int (cyclomatic_complexity metrics) / 20) 1 \<le> 1"
    "min (real_of_int (cognitive_complexity metrics) / 30) 1 \<le> 1"
    "min (real_of_int (nesting_depth metrics) / 5) 1 \<le> 1"
    "min (real_of_int (number_of_parameters metrics) / 8) 1 \<le> 1"
    by simp_all
  then have "0.4 * min (real_of_int (cyclomatic_complexity metrics) / 20) 1 +
       0.3 * min (real_of_int (cognitive_complexity metrics) / 30) 1 +
       0.2 * min (real_of_int (nesting_depth metrics) / 5) 1 +
       0.1 * min (real_of_int (number_of_parameters metrics) / 8) 1 \<le> (1 :: real)"
    by linarith
  with Some show ?thesis by (simp add: complexity_factor_def)
qed

text \<open>
  Claim C9, as the code has it.  With code metrics attached the complexity factor is the
  weighted sum of the four capped ratios, and it is at most 1.
\<close>

theorem complexity_factor_formula:
  "code_metrics m = Some metrics \<longrightarrow>
     complexity_factor m =
       0.4 * min (real_of_int (cyclomatic_complexity metrics) / 20) 1 +
       0.3 * min (real_of_int (cognitive_complexity metrics) / 30) 1 +
       0.2 * min (real_of_int (nesting_depth metrics) / 5) 1 +
       0.1 * min (real_of_int (number_of_parameters metrics) / 8) 1
     \<and> complexity_factor m \<le> 1"
proof
  assume cm: "code_metrics m = Some metrics"
  have "min (real_of_int (cyclomatic_complexity metrics) / 20) 1 \<le> 1"
    "min (real_of_int (cognitive_complexity metrics) / 30) 1 \<le> 1"
    "min (real_of_int (nesting_depth metrics) / 5) 1 \<le> 1"
    "min (real_of_int (number_of_parameters metrics) / 8) 1 \<le> 1"
    by simp_all
  then have "0.4 * min (real_of_int (cyclomatic_complexity metrics) / 20) 1 +
       0.3 * min (real_of_int (cognitive_complexity metrics) / 30) 1 +
       0.2 * min (real_of_int (nesting_depth metrics) / 5) 1 +
       0.1 * min (real_of_int (number_of_parameters metrics) / 8) 1 \<le> (1 :: real)"
    by linarith
  with cm show "complexity_factor m =
       0.4 * min (real_of_int (cyclomatic_complexity metrics) / 20) 1 +
       0.3 * min (real_of_int (cognitive_complexity metrics) / 30) 1 +
       0.2 * min (real_of_int (nesting_depth metrics) / 5) 1 +
       0.1 * min (real_of_int (number_of_parameters metrics) / 8) 1
     \<and> complexity_factor m \<le> 1"
    by (simp add: complexity_factor_def)
qed

theorem complexity_factor_formula_witness:
  "code_metrics (example_m1\<lparr>code_metrics := Some extreme_metrics\<rparr>) = Some extreme_metrics
   \<and> complexity_factor (example_m1\<lparr>code_metrics := Some extreme_metrics\<rparr>) \<le> 1
   \<and> complexity_factor test_m1 = 1 / 10"
  using complexity_factor_formula [of "example_m1\<lparr>code_metrics := Some extreme_metrics\<rparr>"
      extreme_metrics]
    complexity_factor_formula [of test_m1 "CodeMetrics_default\<lparr>cyclomatic_complexity := 5\<rparr>"]
  by (simp add: extreme_metrics_def example_defs)

text \<open>
  Claim C9 as stated fails: no metrics make the complexity factor exceed 1.
\<close>

theorem complexity_factor_never_exceeds_one:
  "\<not> (\<exists>m. code_metrics m \<noteq> None \<and> 1 < complexity_factor m)"
  using complexity_factor_le_1 by (auto simp: not_less)

subsection \<open>Jaccard similarity\<close>

lemma card_Int_le_card_Un:
  "card (A \<inter> B) \<le> card (A \<union> B) \<or> card (A \<union> B) = 0"
proof (cases "finite (A \<union> B)")
  case True
  then have "card (A \<inter> B) \<le> card (A \<union> B)"
    by (intro card_mono) auto
  then show ?thesis ..
next
  case False
  then show ?thesis by simp
qed

text \<open>
  Claim C7.  \<open>compute_similarity\<close> is symmetric, is 1 on two empty sets, 0 when exactly
  one set is empty, always lies in [0, 1], and on two non-empty finite sets is the Jaccard
  index \<open>|A \<inter> B| / |A \<union> B|\<close>.
\<close>

theorem compute_similarity_jaccard:
  "compute_similarity A B = compute_similarity B A
   \<and> compute_similarity {} {} = 1
   \<and> ((A = {}) \<noteq> (B = {}) \<longrightarrow> compute_similarity A B = 0)
   \<and> 0 \<le> compute_similarity A B \<and> compute_similarity A B \<le> 1
   \<and> (A \<noteq> {} \<and> B \<noteq> {} \<and> finite A \<and> finite B \<longrightarrow>
        compute_similarity A B = real (card (A \<inter> B)) / real (card (A \<union> B)))"
proof -
  have sym: "compute_similarity A B = compute_similarity B A"
    by (auto simp: compute_similarity_def Let_def Int_commute Un_commute)
  have both: "compute_similarity {} {} = 1"
    by (simp add: compute_similarity_def)
  have one: "(A = {}) \<noteq> (B = {}) \<longrightarrow> compute_similarity A B = 0"
    by (auto simp: compute_similarity_def)
  have lo: "0 \<le> compute_similarity A B"
    by (simp add: compute_similarity_def Let_def)
  have hi: "compute_similarity A B \<le> 1"
    using card_Int_le_card_Un [of A B]
    by (auto simp: compute_similarity_def Let_def divide_le_eq_1)
  have jac: "A \<noteq> {} \<and> B \<noteq> {} \<and> finite A \<and> finite B \<longrightarrow>
        compute_similarity A B = real (card (A \<inter> B)) / real (card (A \<union> B))"
    by (auto simp: compute_similarity_def Let_def)
  from sym both one lo hi jac show ?thesis by blast
qed

theorem compute_similarity_jaccard_witness:
  "compute_similarity {''t1'', ''t2''} {''t2'', ''t3''} = 1 / 3
   \<and> compute_similarity {''t2'', ''t3''} {''t1'', ''t2''} = 1 / 3
   \<and> compute_similarity {} {''t1''} = 0"
proof -
  let ?A = "{''t1'', ''t2''} :: string set" and ?B = "{''t2'', ''t3''} :: string set"
  have i: "?A \<inter> ?B = {''t2''}" by auto
  have u: "?A \<union> ?B = {''t1'', ''t2'', ''t3''}" by auto
  have "compute_similarity ?A ?B = real (card (?A \<inter> ?B)) / real (card (?A \<union> ?B))"
    using compute_similarity_jaccard [of ?A ?B] by simp
  then have ab: "compute_similarity ?A ?B = 1 / 3"
    unfolding i u by simp
  have ba: "compute_similarity ?B ?A = compute_similarity ?A ?B"
    using compute_similarity_jaccard [of ?B ?A] by simp
  have e: "compute_similarity {} {''t1''} = 0"
    using compute_similarity_jaccard [of "{}" "{''t1''}"] by simp
  from ab ba e show ?thesis by simp
qed

subsection \<open>Statistics\<close>

text \<open>
  Claim C10.  \<open>get_statistics\<close> returns on every statistics state (the division never
  raises): with \<open>total_input = 0\<close> it reports \<open>reduction_percent = 0\<close>, and with
  \<open>total_input > 0\<close> it reports \<open>(1 - total_output / total_input) * 100\<close>.
\<close>

theorem get_statistics_total:
  "(\<exists>r. get_statistics s = Inr r)
   \<and> (total_input s = 0 \<longrightarrow>
        get_statistics s = Inr (stats.extend s (statistics.fields 0)))
   \<and> (total_input s > 0 \<longrightarrow>
        get_statistics s =
          Inr (stats.extend s (statistics.fields
                 ((1 - real_of_int (total_output s) / real_of_int (total_input s)) * 100))))"
  by (simp add: get_statistics_def py_truediv_def)

theorem get_statistics_total_witness:
  "get_statistics \<lparr>total_input = 0, exact_duplicates = 0, coverage_subsumed = 0,
       operator_subsumed = 0, location_clustered = 0, total_output = 0\<rparr>
     = Inr \<lparr>total_input = 0, exact_duplicates = 0, coverage_subsumed = 0,
         operator_subsumed = 0, location_clustered = 0, total_output = 0,
         reduction_percent = 0\<rparr>
   \<and> get_statistics \<lparr>total_input = 115, exact_duplicates = 5, coverage_subsumed = 0,
       operator_subsumed = 0, location_clustered = 10, total_output = 92\<rparr>
     = Inr \<lparr>total_input = 115, exact_duplicates = 5, coverage_subsumed = 0,
         operator_subsumed = 0, location_clustered = 10, total_output = 92,
         reduction_percent = 20\<rparr>"
  using get_statistics_total [of "\<lparr>total_input = 0, exact_duplicates = 0,
       coverage_subsumed = 0, operator_subsumed = 0, location_clustered = 0,
       total_output = 0\<rparr>"]
    get_statistics_total [of "\<lparr>total_input = 115, exact_duplicates = 5,
       coverage_subsumed = 0, operator_subsumed = 0, location_clustered = 10,
       total_output = 92\<rparr>"]
  by (simp add: stats.extend_def statistics.fields_def)

subsection \<open>Decimal rendering and location keys\<close>

declare str_nat.simps [simp del]

lemma digit_char_inj:
  "d < 10 \<Longrightarrow> e < 10 \<Longrightarrow> digit_char d = digit_char e \<Longrightarrow> d = e"
proof -
  assume "d < 10" "e < 10" and eq: "digit_char d = digit_char e"
  have dist: "distinct ''0123456789''" by simp
  have len: "length ''0123456789'' = 10" by simp
  from eq have "''0123456789'' ! d = ''0123456789'' ! e" by (simp only: digit_char_def)
  with dist \<open>d < 10\<close> \<open>e < 10\<close> len show "d = e"
    by (simp only: nth_eq_iff_index_eq)
qed

lemma digit_char_in: "d < 10 \<Longrightarrow> digit_char d \<in> set ''0123456789''"
  unfolding digit_char_def by (rule nth_mem) simp

lemma str_nat_small: "n < 10 \<Longrightarrow> str_nat n = [digit_char n]"
  by (subst str_nat.simps) simp

lemma str_nat_big:
  "\<not> n < 10 \<Longrightarrow> str_nat n = str_nat (n div 10) @ [digit_char (n mod 10)]"
  by (subst str_nat.simps) simp

lemma str_nat_not_Nil: "str_nat n \<noteq> []"
  using str_nat_small [of n] str_nat_big [of n] by (cases "n < 10") simp_all

lemma str_nat_digits: "set (str_nat n) \<subseteq> set ''0123456789''"
proof (induction n rule: str_nat.induct)
  case (1 n)
  show ?case
  proof (cases "n < 10")
    case True
    from digit_char_in [OF True] show ?thesis
      unfolding str_nat_small [OF True]
      by (simp only: list.set insert_subset empty_subsetI simp_thms)
  next
    case False
    have "n mod 10 < 10" by simp
    from digit_char_in [OF this] 1 [OF False] show ?thesis
      unfolding str_nat_big [OF False]
      by (simp only: set_append list.set Un_subset_iff insert_subset empty_subsetI simp_thms)
  qed
qed

lemma str_nat_small_big: "n < 10 \<Longrightarrow> \<not> m < 10 \<Longrightarrow> str_nat n \<noteq> str_nat m"
  using str_nat_not_Nil [of "m div 10"] str_nat_small [of n] str_nat_big [of m] by simp

lemma str_nat_inj: "str_nat n = str_nat m \<Longrightarrow> n = m"
proof (induction n arbitrary: m rule: str_nat.induct)
  case (1 n)
  note eq = \<open>str_nat n = str_nat m\<close>
  show ?case
  proof (cases "n < 10")
    case n: True
    show ?thesis
    proof (cases "m < 10")
      case True
      from eq [unfolded str_nat_small [OF n] str_nat_small [OF True]]
      have "digit_char n = digit_char m" by (simp only: list.inject simp_thms)
      with n True show ?thesis by (rule digit_char_inj)
    next
      case False
      from str_nat_small_big [OF n False] eq show ?thesis by (rule notE)
    qed
  next
    case n: False
    show ?thesis
    proof (cases "m < 10")
      case True
      from str_nat_small_big [OF True n] eq [symmetric] show ?thesis by (rule notE)
    next
      case False
      from eq [unfolded str_nat_big [OF n] str_nat_big [OF False]]
      have a: "str_nat (n div 10) = str_nat (m div 10)"
        and b: "digit_char (n mod 10) = digit_char (m mod 10)"
        by (simp_all only: append1_eq_conv simp_thms)
      from "1.IH" [OF n a] have d: "n div 10 = m div 10" .
      have "n mod 10 < 10" "m mod 10 < 10" by simp_all
      from this b have r: "n mod 10 = m mod 10" by (rule digit_char_inj)
      have "n = n div 10 * 10 + n mod 10" by simp
      also have "\<dots> = m div 10 * 10 + m mod 10" by (simp only: d r)
      also have "\<dots> = m" by simp
      finally show ?thesis .
    qed
  qed
qed

lemma str_nat_no_colon: "CHR '':'' \<notin> set (str_nat n)"
proof
  assume "CHR '':'' \<in> set (str_nat n)"
  with str_nat_digits have "CHR '':'' \<in> set ''0123456789''" by (rule subsetD)
  then show False by simp
qed

lemma str_nat_no_minus: "CHR ''-'' \<notin> set (str_nat n)"
proof
  assume "CHR ''-'' \<in> set (str_nat n)"
  with str_nat_digits have "CHR ''-'' \<in> set ''0123456789''" by (rule subsetD)
  then show False by simp
qed

lemma str_int_no_colon: "CHR '':'' \<notin> set (str_int i)"
  using str_nat_no_colon by (simp add: str_int_def)

lemma str_int_inj: "str_int i = str_int j \<Longrightarrow> i = j"
proof -
  assume eq: "str_int i = str_int j"
  have nd: "\<And>k. hd (str_nat k) \<noteq> CHR ''-''"
  proof -
    fix k
    have "hd (str_nat k) \<in> set (str_nat k)" using str_nat_not_Nil by simp
    with str_nat_no_minus [of k] show "hd (str_nat k) \<noteq> CHR ''-''" by metis
  qed
  show "i = j"
  proof (cases "i < 0")
    case i: True
    show ?thesis
    proof (cases "j < 0")
      case True
      with i eq have "str_nat (nat (- i)) = str_nat (nat (- j))" by (simp add: str_int_def)
      from str_nat_inj [OF this] i True show ?thesis by simp
    next
      case False
      with i eq have "CHR ''-'' # str_nat (nat (- i)) = str_nat (nat j)"
        by (simp add: str_int_def)
      then have "hd (str_nat (nat j)) = CHR ''-''" by (metis list.sel(1))
      with nd show ?thesis by blast
    qed
  next
    case i: False
    show ?thesis
    proof (cases "j < 0")
      case True
      with i eq have "str_nat (nat i) = CHR ''-'' # str_nat (nat (- j))"
        by (simp add: str_int_def)
      then have "hd (str_nat (nat i)) = CHR ''-''" by (metis list.sel(1))
      with nd show ?thesis by blast
    next
      case False
      with i eq have "str_nat (nat i) = str_nat (nat j)" by (simp add: str_int_def)
      from str_nat_inj [OF this] i False show ?thesis by simp
    qed
  qed
qed

lemma split_at_last:
  assumes "xs @ c # ys = xs' @ c # ys'" and "c \<notin> set ys" and "c \<notin> set ys'"
  shows "xs = xs' \<and> ys = ys'"
  using assms
proof (induction xs arbitrary: xs')
  case Nil
  show ?case
  proof (cases xs')
    case Nil
    with Nil.prems show ?thesis by simp
  next
    case (Cons x xs'')
    with Nil.prems have "ys = xs'' @ c # ys'" by simp
    with Nil.prems(2) show ?thesis by simp
  qed
next
  case (Cons x xs)
  show ?case
  proof (cases xs')
    case Nil
    with Cons.prems have "ys' = xs @ c # ys" by simp
    with Cons.prems(3) show ?thesis by simp
  next
    case (Cons x' xs'')
    with Cons.prems have "x = x'" and "xs @ c # ys = xs'' @ c # ys'" by simp_all
    with Cons.IH [of xs''] Cons.prems(2,3) Cons show ?thesis by simp
  qed
qed

lemma location_key_inj:
  assumes "location_key m = location_key m'"
  shows "file_path (location m) = file_path (location m')
       \<and> line_start (location m) = line_start (location m')"
proof -
  from assms have "file_path (location m) @ CHR '':'' # str_int (line_start (location m))
      = file_path (location m') @ CHR '':'' # str_int (line_start (location m'))"
    by (simp add: location_key_def)
  from split_at_last [OF this str_int_no_colon str_int_no_colon] str_int_inj
  show ?thesis by blast
qed

subsection \<open>Coverage estimator\<close>

lemma generate_test_set_location:
  assumes "file_path (location m) = file_path (location m')"
    and "line_start (location m) = line_start (location m')"
  shows "generate_test_set md5 m = generate_test_set md5 m'"
  using assms by (simp add: generate_test_set_def location_key_def)

lemma mod_1000_le:
  fixes h :: nat
  assumes "i \<le> j" "j < 9" "(h + i) mod 1000 = (h + j) mod 1000"
  shows "i = j"
proof (rule ccontr)
  assume "i \<noteq> j"
  with assms(1) have pos: "0 < j - i" by simp
  from assms(1) have le: "h + i \<le> h + j" by simp
  from assms(3) have "(h + j) mod 1000 = (h + i) mod 1000" by (rule sym)
  with le have "1000 dvd (h + j) - (h + i)" by (simp only: mod_eq_dvd_iff_nat)
  then have "1000 dvd j - i" by simp
  moreover from assms(2) have "j - i < 1000" by simp
  ultimately show False using pos by (simp only: nat_dvd_not_less)
qed

lemma mod_1000_inj:
  fixes h :: nat
  assumes "i < 9" "j < 9" "(h + i) mod 1000 = (h + j) mod 1000"
  shows "i = j"
proof (cases "i \<le> j")
  case True
  from True assms(2,3) show ?thesis by (rule mod_1000_le)
next
  case False
  then have "j \<le> i" by simp
  from this assms(1) assms(3) [symmetric] have "j = i" by (rule mod_1000_le)
  then show ?thesis by (rule sym)
qed

lemma generate_test_set_card:
  "card (generate_test_set md5 m) = 3 + md5 (location_key m) mod 6"
proof -
  let ?h = "md5 (location_key m)"
  let ?f = "\<lambda>i. ''test_''
                      @ replace_char CHR ''.'' CHR ''_''
                          (replace_char CHR ''/'' CHR ''_'' (file_path (location m)))
                      @ ''_'' @ str_nat ((?h + i) mod 1000)"
  have lt: "3 + ?h mod 6 < 9"
  proof -
    have "?h mod 6 < 6" by simp
    then show ?thesis by linarith
  qed
  have "inj_on ?f {0..<3 + ?h mod 6}"
  proof (rule inj_onI)
    fix i j assume i: "i \<in> {0..<3 + ?h mod 6}" and j: "j \<in> {0..<3 + ?h mod 6}"
      and eq: "?f i = ?f j"
    from eq have "str_nat ((?h + i) mod 1000) = str_nat ((?h + j) mod 1000)" by simp
    then have "(?h + i) mod 1000 = (?h + j) mod 1000" by (rule str_nat_inj)
    moreover from i lt have "i < 9" by simp
    moreover from j lt have "j < 9" by simp
    ultimately show "i = j" by (intro mod_1000_inj [of i j ?h])
  qed
  then have "distinct (map ?f [0..<3 + ?h mod 6])"
    by (simp add: distinct_map)
  then have "card (set (map ?f [0..<3 + ?h mod 6])) = 3 + ?h mod 6"
    by (simp only: distinct_card length_map length_upt diff_zero)
  then show ?thesis by (simp add: generate_test_set_def Let_def)
qed

lemma estimate_coverage_hit:
  "cache cm (location_key m) = Some tests \<Longrightarrow> estimate_coverage md5 cm m = (tests, cm)"
  by (simp add: estimate_coverage_def)

lemma estimate_coverage_miss:
  "cache cm (location_key m) = None \<Longrightarrow>
   estimate_coverage md5 cm m =
     (generate_test_set md5 m,
      cm\<lparr>cache := (cache cm)(location_key m \<mapsto> generate_test_set md5 m)\<rparr>)"
  by (simp add: estimate_coverage_def Let_def)

lemma generate_test_set_key:
  "location_key m = location_key m' \<Longrightarrow> generate_test_set md5 m = generate_test_set md5 m'"
  using location_key_inj [of m m'] generate_test_set_location [of m m' md5] by simp

lemma estimate_coverage_repeat:
  assumes "location_key m = location_key m'"
  shows "fst (estimate_coverage md5 (snd (estimate_coverage md5 cm m)) m')
       = fst (estimate_coverage md5 cm m)"
proof (cases "cache cm (location_key m)")
  case None
  from None assms show ?thesis
    by (simp add: estimate_coverage_miss estimate_coverage_hit)
next
  case (Some tests)
  from Some assms show ?thesis
    by (simp add: estimate_coverage_hit)
qed

lemma estimate_coverage_generated:
  assumes "\<And>k tests. cache cm k = Some tests \<Longrightarrow>
             \<exists>m'. location_key m' = k \<and> tests = generate_test_set md5 m'"
  shows "fst (estimate_coverage md5 cm m) = generate_test_set md5 m"
proof (cases "cache cm (location_key m)")
  case None
  then show ?thesis by (simp add: estimate_coverage_miss)
next
  case (Some tests)
  from assms [OF Some] obtain m' where "location_key m' = location_key m"
    and "tests = generate_test_set md5 m'" by blast
  with generate_test_set_key [of m' m md5] Some show ?thesis
    by (simp add: estimate_coverage_hit)
qed

lemma estimate_coverage_keeps_generated:
  assumes "\<And>k tests. cache cm k = Some tests \<Longrightarrow>
             \<exists>m'. location_key m' = k \<and> tests = generate_test_set md5 m'"
    and "cache (snd (estimate_coverage md5 cm m)) k = Some tests"
  shows "\<exists>m'. location_key m' = k \<and> tests = generate_test_set md5 m'"
proof (cases "cache cm (location_key m)")
  case None
  show ?thesis
  proof (cases "k = location_key m")
    case True
    with None assms(2) have "tests = generate_test_set md5 m"
      by (simp add: estimate_coverage_miss)
    with True show ?thesis by blast
  next
    case False
    with None assms(2) have "cache cm k = Some tests"
      by (simp add: estimate_coverage_miss)
    then show ?thesis by (rule assms(1))
  qed
next
  case (Some t)
  with assms(2) have "cache cm k = Some tests" by (simp add: estimate_coverage_hit)
  then show ?thesis by (rule assms(1))
qed

lemma map_mutant_coverage_from_generated:
  assumes "\<And>k tests. cache cm k = Some tests \<Longrightarrow>
             \<exists>m'. location_key m' = k \<and> tests = generate_test_set md5 m'"
    and "cache (snd (map_mutant_coverage_from md5 coverage_map cm ms)) k = Some tests"
  shows "\<exists>m'. location_key m' = k \<and> tests = generate_test_set md5 m'"
  using assms
proof (induction ms arbitrary: coverage_map cm)
  case Nil
  from Nil.prems(2) have "cache cm k = Some tests" by simp
  then show ?case by (rule Nil.prems(1))
next
  case (Cons m ms)
  obtain t cm' where e: "estimate_coverage md5 cm m = (t, cm')"
    by (cases "estimate_coverage md5 cm m")
  have inv': "\<exists>m'. location_key m' = k' \<and> tests' = generate_test_set md5 m'"
    if "cache cm' k' = Some tests'" for k' tests'
  proof (rule estimate_coverage_keeps_generated [of cm md5 m k' tests'])
    show "\<And>k tests. cache cm k = Some tests \<Longrightarrow>
             \<exists>m'. location_key m' = k \<and> tests = generate_test_set md5 m'"
      by (rule Cons.prems(1))
    from that e show "cache (snd (estimate_coverage md5 cm m)) k' = Some tests'" by simp
  qed
  from Cons.prems(2) e
  have "cache (snd (map_mutant_coverage_from md5 (coverage_map(mutant_id m \<mapsto> t)) cm' ms)) k
      = Some tests" by simp
  from Cons.IH [of cm' "coverage_map(mutant_id m \<mapsto> t)", OF inv' this] show ?case .
qed

text \<open>
  Claim C8.  The generated test set has between 3 and 8 elements; a mapper that only ever
  estimated (from the empty cache, over any mutants \<open>ms\<close>) returns the generated set; the
  generated set depends on \<open>file_path\<close> and \<open>line_start\<close> only; and on every mapper state
  a second call at the same location returns the set of the first.
\<close>

theorem estimate_coverage_deterministic:
  "3 \<le> card (generate_test_set md5 m) \<and> card (generate_test_set md5 m) \<le> 8
   \<and> fst (estimate_coverage md5
            (snd (map_mutant_coverage md5 \<lparr>cache = Map.empty\<rparr> ms)) m)
       = generate_test_set md5 m
   \<and> (file_path (location m) = file_path (location m')
        \<and> line_start (location m) = line_start (location m') \<longrightarrow>
        generate_test_set md5 m = generate_test_set md5 m'
        \<and> fst (estimate_coverage md5 (snd (estimate_coverage md5 cm m)) m')
            = fst (estimate_coverage md5 cm m))"
proof (intro conjI impI)
  have "md5 (location_key m) mod 6 < 6" by simp
  then have "3 + md5 (location_key m) mod 6 \<le> 8" by linarith
  then show "card (generate_test_set md5 m) \<le> 8" by (simp only: generate_test_set_card)
  show "3 \<le> card (generate_test_set md5 m)" by (simp only: generate_test_set_card le_add1)
next
  show "fst (estimate_coverage md5
            (snd (map_mutant_coverage md5 \<lparr>cache = Map.empty\<rparr> ms)) m)
       = generate_test_set md5 m"
  proof (rule estimate_coverage_generated)
    fix k tests
    assume "cache (snd (map_mutant_coverage md5 \<lparr>cache = Map.empty\<rparr> ms)) k = Some tests"
    then have c: "cache (snd (map_mutant_coverage_from md5 Map.empty \<lparr>cache = Map.empty\<rparr> ms)) k
        = Some tests"
      by (simp only: map_mutant_coverage_def)
    show "\<exists>m'. location_key m' = k \<and> tests = generate_test_set md5 m'"
    proof (rule map_mutant_coverage_from_generated [OF _ c])
      fix k' :: string and tests' :: "string set"
      assume "cache \<lparr>cache = Map.empty\<rparr> k' = Some tests'"
      then show "\<exists>m'. location_key m' = k' \<and> tests' = generate_test_set md5 m'" by simp
    qed
  qed
next
  assume same: "file_path (location m) = file_path (location m')
        \<and> line_start (location m) = line_start (location m')"
  then show "generate_test_set md5 m = generate_test_set md5 m'"
    by (intro generate_test_set_location) simp_all
  from same have "location_key m = location_key m'" by (simp add: location_key_def)
  then show "fst (estimate_coverage md5 (snd (estimate_coverage md5 cm m)) m')
            = fst (estimate_coverage md5 cm m)"
    by (rule estimate_coverage_repeat)
qed

lemma str_int_examples: "str_int 10 = ''10''" "str_int 20 = ''20''"
  by (simp_all add: str_int_def str_nat.simps digit_char_def)

lemma example_keys:
  "location_key example_m1 = ''test.py:10''"
  "location_key example_m3 = ''test.py:10''"
  "location_key example_m2 = ''test.py:20''"
proof -
  have "file_path (location example_m1) = ''test.py''" "line_start (location example_m1) = 10"
    "file_path (location example_m3) = ''test.py''" "line_start (location example_m3) = 10"
    "file_path (location example_m2) = ''test.py''" "line_start (location example_m2) = 20"
    by (simp_all add: example_defs example_m3_def)
  then show "location_key example_m1 = ''test.py:10''"
    "location_key example_m3 = ''test.py:10''"
    "location_key example_m2 = ''test.py:20''"
    by (simp_all add: location_key_def str_int_examples)
qed

lemma example_generated:
  "generate_test_set example_md5 example_m1 =
     {''test_test_py_215'', ''test_test_py_216'', ''test_test_py_217'', ''test_test_py_218'',
      ''test_test_py_219'', ''test_test_py_220''}"
proof -
  have fp: "file_path (location example_m1) = ''test.py''" by (simp add: example_defs)
  have h: "example_md5 ''test.py:10'' = 291288410942298746819749584104972170215"
    by (simp add: example_md5_def)
  have n: "3 + (291288410942298746819749584104972170215 :: nat) mod 6 = 6" by simp
  have u: "[0..<6] = [0, 1, 2, 3, 4, 5 :: nat]" by (simp add: upt_rec)
  have names:
    "str_nat ((291288410942298746819749584104972170215 + 0) mod 1000) = ''215''"
    "str_nat ((291288410942298746819749584104972170215 + 1) mod 1000) = ''216''"
    "str_nat ((291288410942298746819749584104972170215 + 2) mod 1000) = ''217''"
    "str_nat ((291288410942298746819749584104972170215 + 3) mod 1000) = ''218''"
    "str_nat ((291288410942298746819749584104972170215 + 4) mod 1000) = ''219''"
    "str_nat ((291288410942298746819749584104972170215 + 5) mod 1000) = ''220''"
    by (simp_all add: str_nat.simps digit_char_def)
  have "generate_test_set example_md5 example_m1 =
      set (map (\<lambda>i. ''test_'' @ replace_char CHR ''.'' CHR ''_''
                          (replace_char CHR ''/'' CHR ''_'' ''test.py'')
                      @ ''_'' @ str_nat ((291288410942298746819749584104972170215 + i) mod 1000))
             [0, 1, 2, 3, 4, 5])"
    unfolding generate_test_set_def Let_def example_keys fp h n u ..
  also have "\<dots> = {''test_test_py_215'', ''test_test_py_216'', ''test_test_py_217'',
      ''test_test_py_218'', ''test_test_py_219'', ''test_test_py_220''}"
    unfolding list.map list.set names by (simp add: replace_char_def)
  finally show ?thesis .
qed

theorem estimate_coverage_deterministic_witness:
  "generate_test_set example_md5 example_m1 =
     {''test_test_py_215'', ''test_test_py_216'', ''test_test_py_217'', ''test_test_py_218'',
      ''test_test_py_219'', ''test_test_py_220''}
   \<and> generate_test_set example_md5 example_m3 = generate_test_set example_md5 example_m1
   \<and> 3 \<le> card (generate_test_set example_md5 example_m1)
   \<and> card (generate_test_set example_md5 example_m1) \<le> 8
   \<and> fst (estimate_coverage example_md5
            (snd (estimate_coverage example_md5 \<lparr>cache = Map.empty\<rparr> example_m1)) example_m3)
       = fst (estimate_coverage example_md5 \<lparr>cache = Map.empty\<rparr> example_m1)"
proof -
  have same: "file_path (location example_m1) = file_path (location example_m3)
      \<and> line_start (location example_m1) = line_start (location example_m3)"
    by (simp add: example_defs example_m3_def)
  note t = estimate_coverage_deterministic [of example_md5 example_m1 "[]" example_m3
      "\<lparr>cache = Map.empty\<rparr>"]
  from t have "3 \<le> card (generate_test_set example_md5 example_m1)"
    and "card (generate_test_set example_md5 example_m1) \<le> 8"
    by blast+
  moreover from t same
  have "generate_test_set example_md5 example_m1 = generate_test_set example_md5 example_m3"
    and "fst (estimate_coverage example_md5
            (snd (estimate_coverage example_md5 \<lparr>cache = Map.empty\<rparr> example_m1)) example_m3)
       = fst (estimate_coverage example_md5 \<lparr>cache = Map.empty\<rparr> example_m1)"
    by blast+
  ultimately have "3 \<le> card (generate_test_set example_md5 example_m1)"
    and "card (generate_test_set example_md5 example_m1) \<le> 8"
    and "generate_test_set example_md5 example_m3 = generate_test_set example_md5 example_m1"
    and "fst (estimate_coverage example_md5
            (snd (estimate_coverage example_md5 \<lparr>cache = Map.empty\<rparr> example_m1)) example_m3)
       = fst (estimate_coverage example_md5 \<lparr>cache = Map.empty\<rparr> example_m1)"
    by (simp_all only:)
  with example_generated show ?thesis by (intro conjI)
qed

subsection \<open>Coverage-based subsumption\<close>

lemma related_refl: "are_operators_related a a"
  by (simp add: are_operators_related_def)

lemma related_trans:
  "are_operators_related a b \<Longrightarrow> are_operators_related b c \<Longrightarrow> are_operators_related a c"
  by (cases a; cases b;
      simp add: are_operators_related_def subsumed_operators_def OPERATOR_SUBSUMPTIONS_def;
      cases c;
      simp add: are_operators_related_def subsumed_operators_def OPERATOR_SUBSUMPTIONS_def)

lemma coverage_subsumes_zero:
  "coverage_subsumes cm t a b \<Longrightarrow> coverage_subsumes cm 0 a b"
  by (simp add: coverage_subsumes_def)

lemma coverage_subsumes_trans:
  assumes "coverage_subsumes cm 0 a b" and "coverage_subsumes cm 0 b c"
  shows "coverage_subsumes cm 0 a c"
proof -
  from assms have "are_operators_related (operator a) (operator c)"
    unfolding coverage_subsumes_def by (blast intro: related_trans)
  moreover from assms
  have "coverage_get cm (mutant_id c) \<subseteq> coverage_get cm (mutant_id a)"
    unfolding coverage_subsumes_def by blast
  moreover from assms(2) have "card (coverage_get cm (mutant_id c)) > 0"
    unfolding coverage_subsumes_def by blast
  ultimately show ?thesis by (simp add: coverage_subsumes_def)
qed

lemma coverage_inner_fst:
  "fst (coverage_inner cm t m1 (coverage_get cm (mutant_id m1)) rest (R, st))
     = R \<union> mutant_id ` {m2 \<in> set rest. coverage_subsumes cm t m1 m2}"
proof (induction rest arbitrary: R st)
  case Nil
  show ?case by simp
next
  case (Cons m2 rest)
  show ?case
  proof (cases "mutant_id m2 \<in> R")
    case True
    then have "fst (coverage_inner cm t m1 (coverage_get cm (mutant_id m1)) (m2 # rest) (R, st))
        = fst (coverage_inner cm t m1 (coverage_get cm (mutant_id m1)) rest (R, st))"
      by simp
    also have "\<dots> = R \<union> mutant_id ` {m \<in> set rest. coverage_subsumes cm t m1 m}"
      by (rule Cons.IH)
    also have "\<dots> = R \<union> mutant_id ` {m \<in> set (m2 # rest). coverage_subsumes cm t m1 m}"
      using True by auto
    finally show ?thesis .
  next
    case notin: False
    show ?thesis
    proof (cases "coverage_subsumes cm t m1 m2")
      case True
      with notin
      have "fst (coverage_inner cm t m1 (coverage_get cm (mutant_id m1)) (m2 # rest) (R, st))
        = fst (coverage_inner cm t m1 (coverage_get cm (mutant_id m1)) rest
                 (insert (mutant_id m2) R, st\<lparr>coverage_subsumed := coverage_subsumed st + 1\<rparr>))"
        by (simp add: coverage_subsumes_def Let_def)
      also have "\<dots> = insert (mutant_id m2) R
          \<union> mutant_id ` {m \<in> set rest. coverage_subsumes cm t m1 m}"
        by (rule Cons.IH)
      also have "\<dots> = R \<union> mutant_id ` {m \<in> set (m2 # rest). coverage_subsumes cm t m1 m}"
        using True by auto
      finally show ?thesis .
    next
      case False
      with notin
      have "fst (coverage_inner cm t m1 (coverage_get cm (mutant_id m1)) (m2 # rest) (R, st))
        = fst (coverage_inner cm t m1 (coverage_get cm (mutant_id m1)) rest (R, st))"
        by (auto simp add: coverage_subsumes_def Let_def)
      also have "\<dots> = R \<union> mutant_id ` {m \<in> set rest. coverage_subsumes cm t m1 m}"
        by (rule Cons.IH)
      also have "\<dots> = R \<union> mutant_id ` {m \<in> set (m2 # rest). coverage_subsumes cm t m1 m}"
        using False by auto
      finally show ?thesis .
    qed
  qed
qed

lemma coverage_outer_Cons:
  "fst (coverage_outer cm t (m1 # rest) (R, st)) =
     (if mutant_id m1 \<in> R then fst (coverage_outer cm t rest (R, st))
      else fst (coverage_outer cm t rest
                  (R \<union> mutant_id ` {m2 \<in> set rest. coverage_subsumes cm t m1 m2},
                   snd (coverage_inner cm t m1 (coverage_get cm (mutant_id m1)) rest (R, st)))))"
proof (cases "mutant_id m1 \<in> R")
  case True
  then show ?thesis by simp
next
  case False
  have "coverage_inner cm t m1 (coverage_get cm (mutant_id m1)) rest (R, st)
      = (R \<union> mutant_id ` {m2 \<in> set rest. coverage_subsumes cm t m1 m2},
         snd (coverage_inner cm t m1 (coverage_get cm (mutant_id m1)) rest (R, st)))"
    using coverage_inner_fst [of cm t m1 rest R st]
    by (metis prod.collapse)
  with False show ?thesis by simp
qed

lemma coverage_outer_bounds:
  "R \<subseteq> fst (coverage_outer cm t ms (R, st))
   \<and> fst (coverage_outer cm t ms (R, st)) \<subseteq> R \<union> mutant_id ` set ms"
proof (induction ms arbitrary: R st)
  case Nil
  show ?case by simp
next
  case (Cons m1 rest)
  show ?case
  proof (cases "mutant_id m1 \<in> R")
    case True
    with Cons.IH [of R st] show ?thesis
      unfolding coverage_outer_Cons by auto
  next
    case False
    let ?R' = "R \<union> mutant_id ` {m2 \<in> set rest. coverage_subsumes cm t m1 m2}"
    let ?st' = "snd (coverage_inner cm t m1 (coverage_get cm (mutant_id m1)) rest (R, st))"
    from Cons.IH [of ?R' ?st'] False show ?thesis
      unfolding coverage_outer_Cons by auto
  qed
qed

lemma coverage_outer_witness:
  assumes "distinct (map mutant_id ms)"
    and "x \<in> fst (coverage_outer cm t ms (R, st))" and "x \<notin> R"
  shows "\<exists>i j. i < j \<and> j < length ms \<and> mutant_id (ms ! j) = x
           \<and> mutant_id (ms ! i) \<notin> fst (coverage_outer cm t ms (R, st))
           \<and> coverage_subsumes cm t (ms ! i) (ms ! j)"
  using assms
proof (induction ms arbitrary: R st)
  case Nil
  then show ?case by simp
next
  case (Cons m1 rest)
  from Cons.prems(1) have d: "distinct (map mutant_id rest)"
    and fresh: "mutant_id m1 \<notin> mutant_id ` set rest" by simp_all
  let ?F = "fst (coverage_outer cm t (m1 # rest) (R, st))"
  have shift: "\<exists>i j. i < j \<and> j < length (m1 # rest) \<and> mutant_id ((m1 # rest) ! j) = x
           \<and> mutant_id ((m1 # rest) ! i) \<notin> ?F
           \<and> coverage_subsumes cm t ((m1 # rest) ! i) ((m1 # rest) ! j)"
    if "\<exists>i j. i < j \<and> j < length rest \<and> mutant_id (rest ! j) = x
           \<and> mutant_id (rest ! i) \<notin> ?F
           \<and> coverage_subsumes cm t (rest ! i) (rest ! j)"
  proof -
    from that obtain i j where "i < j" "j < length rest" "mutant_id (rest ! j) = x"
      "mutant_id (rest ! i) \<notin> ?F" "coverage_subsumes cm t (rest ! i) (rest ! j)"
      by blast
    then have "Suc i < Suc j \<and> Suc j < length (m1 # rest)
        \<and> mutant_id ((m1 # rest) ! Suc j) = x
        \<and> mutant_id ((m1 # rest) ! Suc i) \<notin> ?F
        \<and> coverage_subsumes cm t ((m1 # rest) ! Suc i) ((m1 # rest) ! Suc j)"
      by simp
    then show ?thesis by blast
  qed
  show ?case
  proof (cases "mutant_id m1 \<in> R")
    case True
    then have F: "?F = fst (coverage_outer cm t rest (R, st))"
      unfolding coverage_outer_Cons by simp
    from Cons.prems(2) have "x \<in> fst (coverage_outer cm t rest (R, st))"
      unfolding F .
    from Cons.IH [OF d this Cons.prems(3)] show ?thesis
      unfolding F [symmetric] by (rule shift)
  next
    case False
    let ?S = "mutant_id ` {m2 \<in> set rest. coverage_subsumes cm t m1 m2}"
    let ?st' = "snd (coverage_inner cm t m1 (coverage_get cm (mutant_id m1)) rest (R, st))"
    from False have F: "?F = fst (coverage_outer cm t rest (R \<union> ?S, ?st'))"
      unfolding coverage_outer_Cons by simp
    have m1F: "mutant_id m1 \<notin> ?F"
    proof
      assume "mutant_id m1 \<in> ?F"
      with coverage_outer_bounds [of "R \<union> ?S" cm t rest ?st']
      have "mutant_id m1 \<in> (R \<union> ?S) \<union> mutant_id ` set rest"
        unfolding F by blast
      with False fresh show False by blast
    qed
    show ?thesis
    proof (cases "x \<in> ?S")
      case True
      then obtain m2 where m2: "m2 \<in> set rest" "coverage_subsumes cm t m1 m2"
        "mutant_id m2 = x" by blast
      from m2(1) obtain j where j: "j < length rest" "rest ! j = m2"
        by (auto simp: in_set_conv_nth)
      from j m2 m1F have "0 < Suc j \<and> Suc j < length (m1 # rest)
        \<and> mutant_id ((m1 # rest) ! Suc j) = x
        \<and> mutant_id ((m1 # rest) ! 0) \<notin> ?F
        \<and> coverage_subsumes cm t ((m1 # rest) ! 0) ((m1 # rest) ! Suc j)"
        by simp
      then show ?thesis by blast
    next
      case notS: False
      from Cons.prems(2) have xin: "x \<in> fst (coverage_outer cm t rest (R \<union> ?S, ?st'))"
        unfolding F .
      from notS Cons.prems(3) have "x \<notin> R \<union> ?S" by simp
      from Cons.IH [OF d xin this] show ?thesis
        unfolding F [symmetric] by (rule shift)
    qed
  qed
qed

lemma coverage_outer_mono:
  assumes "distinct (map mutant_id ms)" and "Rt \<subseteq> R0"
    and "\<And>ys a zs b. ms = ys @ a # zs \<Longrightarrow> mutant_id a \<in> R0 \<Longrightarrow> b \<in> set zs \<Longrightarrow>
           coverage_subsumes cm 0 a b \<Longrightarrow> mutant_id b \<in> R0"
  shows "fst (coverage_outer cm t ms (Rt, st)) \<subseteq> fst (coverage_outer cm 0 ms (R0, st0))"
  using assms
proof (induction ms arbitrary: Rt R0 st st0)
  case Nil
  then show ?case by simp
next
  case (Cons m1 rest)
  from Cons.prems(1) have d: "distinct (map mutant_id rest)"
    and inj: "inj_on mutant_id (set rest)"
    by (simp_all add: distinct_map)
  let ?St = "mutant_id ` {m2 \<in> set rest. coverage_subsumes cm t m1 m2}"
  let ?S0 = "mutant_id ` {m2 \<in> set rest. coverage_subsumes cm 0 m1 m2}"
  let ?stt = "snd (coverage_inner cm t m1 (coverage_get cm (mutant_id m1)) rest (Rt, st))"
  let ?st0 = "snd (coverage_inner cm 0 m1 (coverage_get cm (mutant_id m1)) rest (R0, st0))"
  have sub: "?St \<subseteq> ?S0" using coverage_subsumes_zero by blast
  have closed_tail: "mutant_id b \<in> R0"
    if "rest = ys @ a # zs" "mutant_id a \<in> R0" "b \<in> set zs" "coverage_subsumes cm 0 a b"
    for ys a zs b
  proof (rule Cons.prems(3) [of "m1 # ys" a zs b])
    from that(1) show "m1 # rest = (m1 # ys) @ a # zs" by simp
  qed (rule that)+
  have head: "mutant_id b \<in> R0"
    if "mutant_id m1 \<in> R0" "b \<in> set rest" "coverage_subsumes cm 0 m1 b" for b
    by (rule Cons.prems(3) [of "[]" m1 rest b]) (simp, rule that, rule that, rule that)
  show ?case
  proof (cases "mutant_id m1 \<in> R0")
    case in0: True
    have F0: "fst (coverage_outer cm 0 (m1 # rest) (R0, st0))
        = fst (coverage_outer cm 0 rest (R0, st0))"
      using in0 unfolding coverage_outer_Cons by simp
    show ?thesis
    proof (cases "mutant_id m1 \<in> Rt")
      case True
      then have Ft: "fst (coverage_outer cm t (m1 # rest) (Rt, st))
          = fst (coverage_outer cm t rest (Rt, st))"
        unfolding coverage_outer_Cons by simp
      show ?thesis unfolding Ft F0
        by (rule Cons.IH [OF d Cons.prems(2)]) (rule closed_tail)
    next
      case False
      then have Ft: "fst (coverage_outer cm t (m1 # rest) (Rt, st))
          = fst (coverage_outer cm t rest (Rt \<union> ?St, ?stt))"
        unfolding coverage_outer_Cons by simp
      have "?St \<subseteq> R0"
      proof
        fix x assume "x \<in> ?St"
        then obtain b where "b \<in> set rest" "coverage_subsumes cm t m1 b" "x = mutant_id b"
          by blast
        with head [OF in0, of b] coverage_subsumes_zero [of cm t m1 b] show "x \<in> R0"
          by simp
      qed
      with Cons.prems(2) have "Rt \<union> ?St \<subseteq> R0" by simp
      show ?thesis unfolding Ft F0
        by (rule Cons.IH [OF d \<open>Rt \<union> ?St \<subseteq> R0\<close>]) (rule closed_tail)
    qed
  next
    case notin0: False
    with Cons.prems(2) have notint: "mutant_id m1 \<notin> Rt" by blast
    have F0: "fst (coverage_outer cm 0 (m1 # rest) (R0, st0))
        = fst (coverage_outer cm 0 rest (R0 \<union> ?S0, ?st0))"
      using notin0 unfolding coverage_outer_Cons by simp
    have Ft: "fst (coverage_outer cm t (m1 # rest) (Rt, st))
        = fst (coverage_outer cm t rest (Rt \<union> ?St, ?stt))"
      using notint unfolding coverage_outer_Cons by simp
    from Cons.prems(2) sub have incl: "Rt \<union> ?St \<subseteq> R0 \<union> ?S0" by blast
    have closed': "mutant_id b \<in> R0 \<union> ?S0"
      if r: "rest = ys @ a # zs" and a: "mutant_id a \<in> R0 \<union> ?S0" and b: "b \<in> set zs"
        and ab: "coverage_subsumes cm 0 a b"
      for ys a zs b
    proof (cases "mutant_id a \<in> R0")
      case True
      from closed_tail [OF r True b ab] show ?thesis by simp
    next
      case False
      with a obtain a' where a': "a' \<in> set rest" "coverage_subsumes cm 0 m1 a'"
        "mutant_id a' = mutant_id a" by auto
      from r have "a \<in> set rest" by simp
      with inj a' have "a' = a" by (auto dest: inj_onD)
      with a'(2) ab have "coverage_subsumes cm 0 m1 b" by (auto intro: coverage_subsumes_trans)
      moreover from r b have "b \<in> set rest" by simp
      ultimately show ?thesis by blast
    qed
    show ?thesis unfolding Ft F0
      by (rule Cons.IH [OF d incl]) (rule closed')
  qed
qed

lemma length_filter_mono:
  "(\<And>x. x \<in> set xs \<Longrightarrow> P x \<Longrightarrow> Q x) \<Longrightarrow> length (filter P xs) \<le> length (filter Q xs)"
  by (induction xs) auto

lemma apply_coverage_subsumption_snd:
  "snd (apply_coverage_subsumption md5 an ms) =
     filter (\<lambda>m. mutant_id m \<notin>
               fst (coverage_outer (fst (map_mutant_coverage md5 (coverage_mapper an) ms))
                      (similarity_threshold an) ms ({}, stats an))) ms"
  by (simp add: apply_coverage_subsumption_def split_beta)

text \<open>
  Claim C5, as the code has it.  On a collection with unique ids, and the same analyzer
  otherwise, the stage run with threshold 0 leaves at most as many mutants as the stage run
  with any threshold \<open>t\<close>.
\<close>

theorem coverage_threshold_zero_removes_most:
  assumes "distinct (map mutant_id ms)"
  shows "length (snd (apply_coverage_subsumption md5 (an\<lparr>similarity_threshold := 0\<rparr>) ms))
       \<le> length (snd (apply_coverage_subsumption md5 (an\<lparr>similarity_threshold := t\<rparr>) ms))"
proof -
  let ?cm = "fst (map_mutant_coverage md5 (coverage_mapper an) ms)"
  have "fst (coverage_outer ?cm t ms ({}, stats an))
      \<subseteq> fst (coverage_outer ?cm 0 ms ({}, stats an))"
    by (rule coverage_outer_mono [OF assms]) simp_all
  then show ?thesis
    unfolding apply_coverage_subsumption_snd
    by (intro length_filter_mono) auto
qed

lemma compute_similarity_inline:
  assumes "A \<noteq> {}" and "B \<noteq> {}"
  shows "compute_similarity A B = real (card (A \<inter> B)) / real (card (A \<union> B))"
  using assms by (simp add: compute_similarity_def Let_def)

lemma map_mutant_coverage_same_location:
  assumes "location_key a = location_key b"
    and "cache (coverage_mapper an) (location_key a) = None"
    and "mutant_id a \<noteq> mutant_id b"
  shows "coverage_get (fst (map_mutant_coverage md5 (coverage_mapper an) [a, b])) (mutant_id a)
           = generate_test_set md5 a"
    and "coverage_get (fst (map_mutant_coverage md5 (coverage_mapper an) [a, b])) (mutant_id b)
           = generate_test_set md5 a"
proof -
  let ?cm1 = "(coverage_mapper an)\<lparr>cache := (cache (coverage_mapper an))
                  (location_key a \<mapsto> generate_test_set md5 a)\<rparr>"
  have e1: "estimate_coverage md5 (coverage_mapper an) a = (generate_test_set md5 a, ?cm1)"
    by (rule estimate_coverage_miss [OF assms(2)])
  have "cache ?cm1 (location_key b) = Some (generate_test_set md5 a)"
    using assms(1) by simp
  then have e2: "estimate_coverage md5 ?cm1 b = (generate_test_set md5 a, ?cm1)"
    by (rule estimate_coverage_hit)
  have m: "fst (map_mutant_coverage md5 (coverage_mapper an) [a, b])
      = [mutant_id a \<mapsto> generate_test_set md5 a, mutant_id b \<mapsto> generate_test_set md5 a]"
    by (simp add: map_mutant_coverage_def e1 e2)
  show "coverage_get (fst (map_mutant_coverage md5 (coverage_mapper an) [a, b])) (mutant_id a)
           = generate_test_set md5 a"
    unfolding m using assms(3) by (simp add: coverage_get_def)
  show "coverage_get (fst (map_mutant_coverage md5 (coverage_mapper an) [a, b])) (mutant_id b)
           = generate_test_set md5 a"
    unfolding m by (simp add: coverage_get_def)
qed

lemma same_location_pair_removed:
  assumes "location_key a = location_key b"
    and "cache (coverage_mapper an) (location_key a) = None"
    and "mutant_id a \<noteq> mutant_id b"
    and "are_operators_related (operator a) (operator b)"
    and "similarity_threshold an \<le> 1"
  shows "snd (apply_coverage_subsumption md5 an [a, b]) = [a]"
proof -
  let ?cm = "fst (map_mutant_coverage md5 (coverage_mapper an) [a, b])"
  let ?G = "generate_test_set md5 a"
  note cov = map_mutant_coverage_same_location [OF assms(1,2,3), of md5]
  have pos: "0 < card ?G" by (simp only: generate_test_set_card)
  then have "real (card ?G) / real (card ?G) = 1" by simp
  with assms(4,5) pos have sub: "coverage_subsumes ?cm (similarity_threshold an) a b"
    by (simp add: coverage_subsumes_def cov)
  have "fst (coverage_outer ?cm (similarity_threshold an) [a, b] ({}, stats an))
      = {mutant_id b}"
    unfolding coverage_outer_Cons using sub by auto
  then show ?thesis
    unfolding apply_coverage_subsumption_snd using assms(3) by simp
qed

theorem coverage_threshold_zero_removes_most_witness:
  "snd (apply_coverage_subsumption example_md5 (loaded_analyzer\<lparr>similarity_threshold := 0\<rparr>)
          [example_m1, example_m4]) = [example_m1]
   \<and> snd (apply_coverage_subsumption example_md5
            (loaded_analyzer\<lparr>similarity_threshold := 0.90\<rparr>)
          [example_m1, example_m4]) = [example_m1, example_m4]
   \<and> length (snd (apply_coverage_subsumption example_md5
                    (loaded_analyzer\<lparr>similarity_threshold := 0\<rparr>) [example_m1, example_m4]))
       \<le> length (snd (apply_coverage_subsumption example_md5
                    (loaded_analyzer\<lparr>similarity_threshold := 0.90\<rparr>)
                    [example_m1, example_m4]))"
proof -
  have k: "location_key example_m4 = ''test.py:20''"
  proof -
    have "file_path (location example_m4) = ''test.py''" "line_start (location example_m4) = 20"
      by (simp_all add: example_m4_def new_mutant_def)
    then show ?thesis by (simp add: location_key_def str_int_examples)
  qed
  have ids: "mutant_id example_m1 = ''m1''" "mutant_id example_m4 = ''m4''"
    "operator example_m1 = ARITHMETIC_REPLACEMENT" "operator example_m4 = ARITHMETIC_REPLACEMENT"
    by (simp_all add: example_defs example_m4_def)
  have cm: "map_mutant_coverage example_md5 (coverage_mapper loaded_analyzer)
        [example_m1, example_m4]
      = ([''m1'' \<mapsto> {''t1'', ''t2'', ''t3'', ''t4''}, ''m4'' \<mapsto> {''t1'', ''t2''}],
         coverage_mapper loaded_analyzer)"
    by (simp add: map_mutant_coverage_def estimate_coverage_def example_keys k ids
        loaded_analyzer_def SubsumptionAnalyzer_init_def load_actual_coverage_def)
  let ?cm = "fst (map_mutant_coverage example_md5 (coverage_mapper loaded_analyzer)
        [example_m1, example_m4])"
  have c1: "coverage_get ?cm (mutant_id example_m1) = {''t1'', ''t2'', ''t3'', ''t4''}"
    and c4: "coverage_get ?cm (mutant_id example_m4) = {''t1'', ''t2''}"
    by (simp_all add: cm ids coverage_get_def)
  have i: "{''t1'', ''t2'', ''t3'', ''t4''} \<inter> {''t1'', ''t2''} = {''t1'', ''t2'' :: string}"
    by auto
  have u: "{''t1'', ''t2'', ''t3'', ''t4''} \<union> {''t1'', ''t2''}
      = {''t1'', ''t2'', ''t3'', ''t4'' :: string}"
    by auto
  have j: "real (card ({''t1'', ''t2'', ''t3'', ''t4''} \<inter> {''t1'', ''t2'' :: string}))
      / real (card ({''t1'', ''t2'', ''t3'', ''t4''} \<union> {''t1'', ''t2'' :: string})) = 1 / 2"
    unfolding i u by simp
  have rel: "are_operators_related (operator example_m1) (operator example_m4)"
    by (simp add: ids are_operators_related_def)
  have sb: "{''t1'', ''t2''} \<subseteq> {''t1'', ''t2'', ''t3'', ''t4'' :: string}"
    and cd: "0 < card {''t1'', ''t2'' :: string}"
    by simp_all
  have s0: "coverage_subsumes ?cm 0 example_m1 example_m4"
    unfolding coverage_subsumes_def c1 c4 j using rel sb cd by simp
  have s9: "\<not> coverage_subsumes ?cm 0.90 example_m1 example_m4"
    unfolding coverage_subsumes_def c1 c4 j by simp
  have ne: "mutant_id example_m1 \<noteq> mutant_id example_m4" by (simp add: ids)
  have F0: "fst (coverage_outer ?cm 0 [example_m1, example_m4] ({}, stats loaded_analyzer))
      = {mutant_id example_m4}"
    unfolding coverage_outer_Cons using s0 by auto
  have F9: "fst (coverage_outer ?cm 0.90 [example_m1, example_m4] ({}, stats loaded_analyzer))
      = {}"
    unfolding coverage_outer_Cons using s9 by auto
  have f: "coverage_mapper (loaded_analyzer\<lparr>similarity_threshold := t\<rparr>)
        = coverage_mapper loaded_analyzer"
    "similarity_threshold (loaded_analyzer\<lparr>similarity_threshold := t\<rparr>) = t"
    "stats (loaded_analyzer\<lparr>similarity_threshold := t\<rparr>) = stats loaded_analyzer" for t
    by simp_all
  have zero: "snd (apply_coverage_subsumption example_md5
      (loaded_analyzer\<lparr>similarity_threshold := 0\<rparr>) [example_m1, example_m4]) = [example_m1]"
    unfolding apply_coverage_subsumption_snd f F0 using ne by simp
  have high: "snd (apply_coverage_subsumption example_md5
      (loaded_analyzer\<lparr>similarity_threshold := 0.90\<rparr>) [example_m1, example_m4])
      = [example_m1, example_m4]"
    unfolding apply_coverage_subsumption_snd f F9 by simp
  have d: "distinct (map mutant_id [example_m1, example_m4])" by (simp add: ids)
  from coverage_threshold_zero_removes_most [OF d, of example_md5 loaded_analyzer "0.90"]
    zero high
  show ?thesis by (simp only: simp_thms)
qed

lemma coverage_subsumes_unrelated:
  "\<not> are_operators_related (operator a) (operator b) \<Longrightarrow> \<not> coverage_subsumes cm t a b"
  by (simp add: coverage_subsumes_def)

lemma repeated_ids:
  "mutant_id example_m1 = ''m1''" "mutant_id repeated_i1 = ''i''"
  "mutant_id repeated_i2 = ''i''" "mutant_id repeated_d1 = ''d''"
  "mutant_id repeated_d2 = ''d''" "mutant_id repeated_d3 = ''d''"
  by (simp_all add: example_m1_def repeated_i1_def repeated_i2_def repeated_d1_def
      repeated_d2_def repeated_d3_def new_mutant_def)

lemma repeated_operators:
  "operator example_m1 = ARITHMETIC_REPLACEMENT" "operator repeated_i1 = INCREMENT_DECREMENT"
  "operator repeated_i2 = LOGICAL_OPERATOR" "operator repeated_d1 = LOGICAL_OPERATOR"
  "operator repeated_d2 = FRAMEWORK_SPECIFIC" "operator repeated_d3 = RETURN_VALUE_REPLACEMENT"
  by (simp_all add: example_m1_def repeated_i1_def repeated_i2_def repeated_d1_def
      repeated_d2_def repeated_d3_def new_mutant_def)

lemma repeated_keys:
  "location_key repeated_i1 = ''test.py:20''" "location_key repeated_i2 = ''test.py:20''"
  "location_key repeated_d1 = ''test.py:20''" "location_key repeated_d2 = ''test.py:20''"
  "location_key repeated_d3 = ''test.py:20''"
proof -
  have "file_path (location repeated_i1) = ''test.py''" "line_start (location repeated_i1) = 20"
    "file_path (location repeated_i2) = ''test.py''" "line_start (location repeated_i2) = 20"
    "file_path (location repeated_d1) = ''test.py''" "line_start (location repeated_d1) = 20"
    "file_path (location repeated_d2) = ''test.py''" "line_start (location repeated_d2) = 20"
    "file_path (location repeated_d3) = ''test.py''" "line_start (location repeated_d3) = 20"
    by (simp_all add: repeated_i1_def repeated_i2_def repeated_d1_def repeated_d2_def
        repeated_d3_def new_mutant_def)
  then show "location_key repeated_i1 = ''test.py:20''" "location_key repeated_i2 = ''test.py:20''"
    "location_key repeated_d1 = ''test.py:20''" "location_key repeated_d2 = ''test.py:20''"
    "location_key repeated_d3 = ''test.py:20''"
    by (simp_all add: location_key_def str_int_examples)
qed

lemma repeated_coverage_map:
  "fst (map_mutant_coverage example_md5 (coverage_mapper loaded_analyzer) repeated_id_batch)
     = [''m1'' \<mapsto> {''t1'', ''t2'', ''t3'', ''t4''}, ''i'' \<mapsto> {''t1'', ''t2''},
        ''d'' \<mapsto> {''t1'', ''t2''}]"
  by (simp add: repeated_id_batch_def map_mutant_coverage_def estimate_coverage_def
      example_keys repeated_keys repeated_ids loaded_analyzer_def SubsumptionAnalyzer_init_def
      load_actual_coverage_def)

lemma repeated_coverage:
  "coverage_get (fst (map_mutant_coverage example_md5 (coverage_mapper loaded_analyzer)
       repeated_id_batch)) ''m1'' = {''t1'', ''t2'', ''t3'', ''t4''}"
  "coverage_get (fst (map_mutant_coverage example_md5 (coverage_mapper loaded_analyzer)
       repeated_id_batch)) ''i'' = {''t1'', ''t2''}"
  "coverage_get (fst (map_mutant_coverage example_md5 (coverage_mapper loaded_analyzer)
       repeated_id_batch)) ''d'' = {''t1'', ''t2''}"
  by (simp_all add: repeated_coverage_map coverage_get_def)

lemma repeated_unrelated:
  "\<not> are_operators_related (operator example_m1) (operator repeated_i2)"
  "\<not> are_operators_related (operator example_m1) (operator repeated_d1)"
  "\<not> are_operators_related (operator example_m1) (operator repeated_d2)"
  "\<not> are_operators_related (operator example_m1) (operator repeated_d3)"
  "\<not> are_operators_related (operator repeated_i1) (operator repeated_i2)"
  "\<not> are_operators_related (operator repeated_i1) (operator repeated_d1)"
  "\<not> are_operators_related (operator repeated_i1) (operator repeated_d2)"
  "\<not> are_operators_related (operator repeated_i1) (operator repeated_d3)"
  "\<not> are_operators_related (operator repeated_i2) (operator repeated_d2)"
  "\<not> are_operators_related (operator repeated_i2) (operator repeated_d3)"
  "\<not> are_operators_related (operator repeated_d1) (operator repeated_d2)"
  "\<not> are_operators_related (operator repeated_d1) (operator repeated_d3)"
  "\<not> are_operators_related (operator repeated_d2) (operator repeated_d3)"
  by (simp_all add: repeated_operators are_operators_related_def subsumed_operators_def
      OPERATOR_SUBSUMPTIONS_def)

lemma repeated_related:
  "are_operators_related (operator example_m1) (operator repeated_i1)"
  "are_operators_related (operator repeated_i2) (operator repeated_d1)"
  by (simp_all add: repeated_operators are_operators_related_def subsumed_operators_def
      OPERATOR_SUBSUMPTIONS_def)

lemma repeated_subsumes:
  "coverage_subsumes (fst (map_mutant_coverage example_md5 (coverage_mapper loaded_analyzer)
       repeated_id_batch)) 0 example_m1 repeated_i1"
  "\<not> coverage_subsumes (fst (map_mutant_coverage example_md5 (coverage_mapper loaded_analyzer)
       repeated_id_batch)) 0.90 example_m1 repeated_i1"
  "coverage_subsumes (fst (map_mutant_coverage example_md5 (coverage_mapper loaded_analyzer)
       repeated_id_batch)) 0.90 repeated_i2 repeated_d1"
proof -
  let ?cm = "fst (map_mutant_coverage example_md5 (coverage_mapper loaded_analyzer)
       repeated_id_batch)"
  have i: "{''t1'', ''t2'', ''t3'', ''t4''} \<inter> {''t1'', ''t2''} = {''t1'', ''t2'' :: string}"
    by auto
  have u: "{''t1'', ''t2'', ''t3'', ''t4''} \<union> {''t1'', ''t2''}
      = {''t1'', ''t2'', ''t3'', ''t4'' :: string}"
    by auto
  have j: "real (card ({''t1'', ''t2'', ''t3'', ''t4''} \<inter> {''t1'', ''t2'' :: string}))
      / real (card ({''t1'', ''t2'', ''t3'', ''t4''} \<union> {''t1'', ''t2'' :: string})) = 1 / 2"
    unfolding i u by simp
  have e: "real (card ({''t1'', ''t2''} \<inter> {''t1'', ''t2'' :: string}))
      / real (card ({''t1'', ''t2''} \<union> {''t1'', ''t2'' :: string})) = 1"
    unfolding Int_absorb Un_absorb by simp
  have sb: "{''t1'', ''t2''} \<subseteq> {''t1'', ''t2'', ''t3'', ''t4'' :: string}"
    "{''t1'', ''t2''} \<subseteq> {''t1'', ''t2'' :: string}"
    and cd: "0 < card {''t1'', ''t2'' :: string}"
    by simp_all
  show "coverage_subsumes ?cm 0 example_m1 repeated_i1"
    unfolding coverage_subsumes_def repeated_ids repeated_coverage j
    using repeated_related(1) sb cd by simp
  show "\<not> coverage_subsumes ?cm 0.90 example_m1 repeated_i1"
    unfolding coverage_subsumes_def repeated_ids repeated_coverage j by simp
  show "coverage_subsumes ?cm 0.90 repeated_i2 repeated_d1"
    unfolding coverage_subsumes_def repeated_ids repeated_coverage e
    using repeated_related(2) sb cd by simp
qed

lemma coverage_outer_skip:
  assumes "mutant_id m1 \<in> R" and "\<And>st. fst (coverage_outer cm t rest (R, st)) = F"
  shows "fst (coverage_outer cm t (m1 # rest) (R, st)) = F"
  using assms unfolding coverage_outer_Cons by simp

lemma coverage_outer_take:
  assumes "mutant_id m1 \<notin> R"
    and "mutant_id ` {m2 \<in> set rest. coverage_subsumes cm t m1 m2} = S"
    and "\<And>st. fst (coverage_outer cm t rest (R \<union> S, st)) = F"
  shows "fst (coverage_outer cm t (m1 # rest) (R, st)) = F"
  using assms unfolding coverage_outer_Cons by simp

lemma repeated_removed:
  "fst (coverage_outer (fst (map_mutant_coverage example_md5 (coverage_mapper loaded_analyzer)
       repeated_id_batch)) 0 repeated_id_batch ({}, st)) = {''i''}"
  "fst (coverage_outer (fst (map_mutant_coverage example_md5 (coverage_mapper loaded_analyzer)
       repeated_id_batch)) 0.90 repeated_id_batch ({}, st)) = {''d''}"
proof -
  define cm where "cm = fst (map_mutant_coverage example_md5 (coverage_mapper loaded_analyzer)
       repeated_id_batch)"
  note no = repeated_unrelated [THEN coverage_subsumes_unrelated]
  note yes = repeated_subsumes [folded cm_def]
  have in_i: "mutant_id repeated_i1 \<in> {''i''}" "mutant_id repeated_i2 \<in> {''i''}"
    and in_d: "mutant_id repeated_d1 \<in> {''d''}" "mutant_id repeated_d2 \<in> {''d''}"
      "mutant_id repeated_d3 \<in> {''d''}"
    and out: "mutant_id example_m1 \<notin> {}" "mutant_id repeated_d1 \<notin> {''i''}"
      "mutant_id repeated_d2 \<notin> {''i''}" "mutant_id repeated_d3 \<notin> {''i''}"
      "mutant_id repeated_i1 \<notin> {}" "mutant_id repeated_i2 \<notin> {}"
    by (simp_all add: repeated_ids)
  have none: "mutant_id ` {m2 \<in> set []. coverage_subsumes cm t m1 m2} = {}" for t m1
    by simp
  have a1: "mutant_id ` {m2 \<in> set [repeated_i1, repeated_i2, repeated_d1, repeated_d2,
      repeated_d3]. coverage_subsumes cm 0 example_m1 m2} = {''i''}"
    unfolding set_filter [symmetric]
    by (simp add: yes(1) no [of cm 0] repeated_ids)
  have b1: "mutant_id ` {m2 \<in> set [repeated_d2, repeated_d3].
      coverage_subsumes cm 0 repeated_d1 m2} = {}"
    unfolding set_filter [symmetric] by (simp add: no [of cm 0])
  have b2: "mutant_id ` {m2 \<in> set [repeated_d3].
      coverage_subsumes cm 0 repeated_d2 m2} = {}"
    unfolding set_filter [symmetric] by (simp add: no [of cm 0])
  have z0: "fst (coverage_outer cm 0 [] ({''i''}, st)) = {''i''}" for st by simp
  have z1: "fst (coverage_outer cm 0 [repeated_d3] ({''i''}, st)) = {''i''}" for st
    by (rule coverage_outer_take [OF out(4) none]) (simp only: Un_empty_right z0)
  have z2: "fst (coverage_outer cm 0 [repeated_d2, repeated_d3] ({''i''}, st)) = {''i''}" for st
    by (rule coverage_outer_take [OF out(3) b2]) (simp only: Un_empty_right z1)
  have z3: "fst (coverage_outer cm 0 [repeated_d1, repeated_d2, repeated_d3] ({''i''}, st))
      = {''i''}" for st
    by (rule coverage_outer_take [OF out(2) b1]) (simp only: Un_empty_right z2)
  have z4: "fst (coverage_outer cm 0 [repeated_i2, repeated_d1, repeated_d2, repeated_d3]
      ({''i''}, st)) = {''i''}" for st
    by (rule coverage_outer_skip [OF in_i(2)]) (rule z3)
  have z5: "fst (coverage_outer cm 0 [repeated_i1, repeated_i2, repeated_d1, repeated_d2,
      repeated_d3] ({''i''}, st)) = {''i''}" for st
    by (rule coverage_outer_skip [OF in_i(1)]) (rule z4)
  have "fst (coverage_outer cm 0 repeated_id_batch ({}, st)) = {''i''}"
    unfolding repeated_id_batch_def
    by (rule coverage_outer_take [OF out(1) a1]) (simp only: Un_empty_left z5)
  then show "fst (coverage_outer (fst (map_mutant_coverage example_md5
      (coverage_mapper loaded_analyzer) repeated_id_batch)) 0 repeated_id_batch ({}, st))
      = {''i''}"
    unfolding cm_def .
  have c1: "mutant_id ` {m2 \<in> set [repeated_i1, repeated_i2, repeated_d1, repeated_d2,
      repeated_d3]. coverage_subsumes cm 0.90 example_m1 m2} = {}"
    using yes(2) no [of cm "0.90"] unfolding set_filter [symmetric] by simp
  have c2: "mutant_id ` {m2 \<in> set [repeated_i2, repeated_d1, repeated_d2, repeated_d3].
      coverage_subsumes cm 0.90 repeated_i1 m2} = {}"
    using no [of cm "0.90"] unfolding set_filter [symmetric] by simp
  have c3: "mutant_id ` {m2 \<in> set [repeated_d1, repeated_d2, repeated_d3].
      coverage_subsumes cm 0.90 repeated_i2 m2} = {''d''}"
    using yes(3) no [of cm "0.90"] unfolding set_filter [symmetric]
    by (simp add: repeated_ids)
  have h0: "fst (coverage_outer cm 0.90 [] ({''d''}, st)) = {''d''}" for st by simp
  have h1: "fst (coverage_outer cm 0.90 [repeated_d3] ({''d''}, st)) = {''d''}" for st
    by (rule coverage_outer_skip [OF in_d(3)]) (rule h0)
  have h2: "fst (coverage_outer cm 0.90 [repeated_d2, repeated_d3] ({''d''}, st)) = {''d''}"
    for st
    by (rule coverage_outer_skip [OF in_d(2)]) (rule h1)
  have h3: "fst (coverage_outer cm 0.90 [repeated_d1, repeated_d2, repeated_d3] ({''d''}, st))
      = {''d''}" for st
    by (rule coverage_outer_skip [OF in_d(1)]) (rule h2)
  have h4: "fst (coverage_outer cm 0.90 [repeated_i2, repeated_d1, repeated_d2, repeated_d3]
      ({}, st)) = {''d''}" for st
    by (rule coverage_outer_take [OF out(6) c3]) (simp only: Un_empty_left h3)
  have h5: "fst (coverage_outer cm 0.90 [repeated_i1, repeated_i2, repeated_d1, repeated_d2,
      repeated_d3] ({}, st)) = {''d''}" for st
    by (rule coverage_outer_take [OF out(5) c2]) (simp only: Un_empty_right h4)
  have "fst (coverage_outer cm 0.90 repeated_id_batch ({}, st)) = {''d''}"
    unfolding repeated_id_batch_def
    by (rule coverage_outer_take [OF out(1) c1]) (simp only: Un_empty_right h5)
  then show "fst (coverage_outer (fst (map_mutant_coverage example_md5
      (coverage_mapper loaded_analyzer) repeated_id_batch)) 0.90 repeated_id_batch ({}, st))
      = {''d''}"
    unfolding cm_def .
qed

text \<open>
  Claim C5 as stated fails on a collection in which ids repeat: the removal set and the
  coverage map are keyed by id, and on the batch above the stage leaves four mutants with
  threshold 0 and three with threshold 0.90.
\<close>

theorem repeated_ids_break_threshold_order:
  "snd (apply_coverage_subsumption example_md5 (loaded_analyzer\<lparr>similarity_threshold := 0\<rparr>)
          repeated_id_batch) = [example_m1, repeated_d1, repeated_d2, repeated_d3]
   \<and> snd (apply_coverage_subsumption example_md5
            (loaded_analyzer\<lparr>similarity_threshold := 0.90\<rparr>) repeated_id_batch)
       = [example_m1, repeated_i1, repeated_i2]
   \<and> \<not> length (snd (apply_coverage_subsumption example_md5
                      (loaded_analyzer\<lparr>similarity_threshold := 0\<rparr>) repeated_id_batch))
         \<le> length (snd (apply_coverage_subsumption example_md5
                      (loaded_analyzer\<lparr>similarity_threshold := 0.90\<rparr>) repeated_id_batch))"
proof -
  have f: "coverage_mapper (loaded_analyzer\<lparr>similarity_threshold := t\<rparr>)
        = coverage_mapper loaded_analyzer"
    "similarity_threshold (loaded_analyzer\<lparr>similarity_threshold := t\<rparr>) = t"
    "stats (loaded_analyzer\<lparr>similarity_threshold := t\<rparr>) = stats loaded_analyzer" for t
    by simp_all
  have zero: "snd (apply_coverage_subsumption example_md5
      (loaded_analyzer\<lparr>similarity_threshold := 0\<rparr>) repeated_id_batch)
      = [example_m1, repeated_d1, repeated_d2, repeated_d3]"
    unfolding apply_coverage_subsumption_snd f repeated_removed
    by (simp add: repeated_id_batch_def repeated_ids)
  have high: "snd (apply_coverage_subsumption example_md5
      (loaded_analyzer\<lparr>similarity_threshold := 0.90\<rparr>) repeated_id_batch)
      = [example_m1, repeated_i1, repeated_i2]"
    unfolding apply_coverage_subsumption_snd f repeated_removed
    by (simp add: repeated_id_batch_def repeated_ids)
  show ?thesis unfolding zero high by simp
qed

text \<open>
  Claim C4, as the code has it.  On a collection with unique ids, every mutant \<open>b\<close> that
  stage four removes has a surviving mutant \<open>a\<close> before it in the list, with a related
  operator, whose covering set contains the non-empty covering set of \<open>b\<close> (the two sets
  may be equal), and whose Jaccard similarity with it reaches the threshold.
\<close>

theorem coverage_removal_has_dominator:
  assumes "distinct (map mutant_id ms)" and "b \<in> set ms"
    and "b \<notin> set (snd (apply_coverage_subsumption md5 an ms))"
  shows "\<exists>a\<in>set (snd (apply_coverage_subsumption md5 an ms)).
           (\<exists>i j. i < j \<and> j < length ms \<and> ms ! i = a \<and> ms ! j = b)
         \<and> are_operators_related (operator a) (operator b)
         \<and> coverage_get (fst (map_mutant_coverage md5 (coverage_mapper an) ms)) (mutant_id b)
             \<subseteq> coverage_get (fst (map_mutant_coverage md5 (coverage_mapper an) ms)) (mutant_id a)
         \<and> coverage_get (fst (map_mutant_coverage md5 (coverage_mapper an) ms)) (mutant_id b) \<noteq> {}
         \<and> similarity_threshold an \<le>
             compute_similarity
               (coverage_get (fst (map_mutant_coverage md5 (coverage_mapper an) ms)) (mutant_id a))
               (coverage_get (fst (map_mutant_coverage md5 (coverage_mapper an) ms)) (mutant_id b))"
proof -
  let ?cm = "fst (map_mutant_coverage md5 (coverage_mapper an) ms)"
  let ?t = "similarity_threshold an"
  let ?F = "fst (coverage_outer ?cm ?t ms ({}, stats an))"
  have out: "snd (apply_coverage_subsumption md5 an ms) = filter (\<lambda>m. mutant_id m \<notin> ?F) ms"
    by (rule apply_coverage_subsumption_snd)
  from assms(2,3) have "mutant_id b \<in> ?F" unfolding out by simp
  from coverage_outer_witness [OF assms(1) this]
  obtain i j where ij: "i < j" "j < length ms" and idb: "mutant_id (ms ! j) = mutant_id b"
    and surv: "mutant_id (ms ! i) \<notin> ?F" and sub: "coverage_subsumes ?cm ?t (ms ! i) (ms ! j)"
    by auto
  from assms(1) have "inj_on mutant_id (set ms)" by (simp add: distinct_map)
  with idb ij(2) assms(2) have j: "ms ! j = b" by (auto dest: inj_onD)
  let ?a = "ms ! i"
  from ij have "?a \<in> set ms" by simp
  with surv have a_out: "?a \<in> set (snd (apply_coverage_subsumption md5 an ms))"
    unfolding out by simp
  from sub j have rel: "are_operators_related (operator ?a) (operator b)"
    and sup: "coverage_get ?cm (mutant_id b) \<subseteq> coverage_get ?cm (mutant_id ?a)"
    and card: "card (coverage_get ?cm (mutant_id b)) > 0"
    and sim: "?t \<le> real (card (coverage_get ?cm (mutant_id ?a) \<inter> coverage_get ?cm (mutant_id b)))
          / real (card (coverage_get ?cm (mutant_id ?a) \<union> coverage_get ?cm (mutant_id b)))"
    by (simp_all add: coverage_subsumes_def)
  from card have ne: "coverage_get ?cm (mutant_id b) \<noteq> {}" by auto
  with sup have nea: "coverage_get ?cm (mutant_id ?a) \<noteq> {}" by auto
  from sim have sim': "?t \<le> compute_similarity (coverage_get ?cm (mutant_id ?a))
      (coverage_get ?cm (mutant_id b))"
    by (simp only: compute_similarity_inline [OF nea ne])
  have pos: "\<exists>i' j'. i' < j' \<and> j' < length ms \<and> ms ! i' = ?a \<and> ms ! j' = b"
    using ij j by blast
  from a_out pos rel sup ne sim' show ?thesis by (intro bexI [of _ ?a] conjI)
qed

lemma example_pair_facts:
  "location_key example_m1 = location_key example_m3"
  "cache (coverage_mapper SubsumptionAnalyzer_init) (location_key example_m1) = None"
  "mutant_id example_m1 \<noteq> mutant_id example_m3"
  "are_operators_related (operator example_m1) (operator example_m3)"
  "similarity_threshold SubsumptionAnalyzer_init \<le> 1"
proof -
  show "location_key example_m1 = location_key example_m3"
    by (simp only: example_keys)
  show "cache (coverage_mapper SubsumptionAnalyzer_init) (location_key example_m1) = None"
    by (simp add: SubsumptionAnalyzer_init_def)
  show "mutant_id example_m1 \<noteq> mutant_id example_m3"
    by (simp add: example_defs example_m3_def)
  show "are_operators_related (operator example_m1) (operator example_m3)"
    by (simp add: example_defs example_m3_def are_operators_related_def)
  show "similarity_threshold SubsumptionAnalyzer_init \<le> 1"
    by (simp add: SubsumptionAnalyzer_init_def)
qed

theorem coverage_removal_has_dominator_witness:
  "snd (apply_coverage_subsumption example_md5 SubsumptionAnalyzer_init
          [example_m1, example_m3]) = [example_m1]
   \<and> (\<exists>a\<in>set (snd (apply_coverage_subsumption example_md5 SubsumptionAnalyzer_init
                        [example_m1, example_m3])).
         are_operators_related (operator a) (operator example_m3)
         \<and> coverage_get (fst (map_mutant_coverage example_md5
                (coverage_mapper SubsumptionAnalyzer_init) [example_m1, example_m3]))
              (mutant_id example_m3)
             \<subseteq> coverage_get (fst (map_mutant_coverage example_md5
                (coverage_mapper SubsumptionAnalyzer_init) [example_m1, example_m3]))
              (mutant_id a)
         \<and> similarity_threshold SubsumptionAnalyzer_init \<le>
             compute_similarity
               (coverage_get (fst (map_mutant_coverage example_md5
                  (coverage_mapper SubsumptionAnalyzer_init) [example_m1, example_m3]))
                  (mutant_id a))
               (coverage_get (fst (map_mutant_coverage example_md5
                  (coverage_mapper SubsumptionAnalyzer_init) [example_m1, example_m3]))
                  (mutant_id example_m3)))"
proof -
  have out: "snd (apply_coverage_subsumption example_md5 SubsumptionAnalyzer_init
          [example_m1, example_m3]) = [example_m1]"
    by (rule same_location_pair_removed [OF example_pair_facts])
  have d: "distinct (map mutant_id [example_m1, example_m3])"
    using example_pair_facts(3) by simp
  have i: "example_m3 \<in> set [example_m1, example_m3]" by simp
  have "example_m3 \<noteq> example_m1" using example_pair_facts(3) by auto
  then have o: "example_m3 \<notin> set (snd (apply_coverage_subsumption example_md5
      SubsumptionAnalyzer_init [example_m1, example_m3]))"
    unfolding out by simp
  from coverage_removal_has_dominator [OF d i o] out show ?thesis by blast
qed

text \<open>
  Claim C4 as stated fails: two mutants on the same line of the same file get the same
  covering set, and the second is removed although the first one's set is no proper
  superset of it.
\<close>

theorem equal_coverage_is_removed:
  "snd (apply_coverage_subsumption example_md5 SubsumptionAnalyzer_init
          [example_m1, example_m3]) = [example_m1]
   \<and> coverage_get (fst (map_mutant_coverage example_md5
                          (coverage_mapper SubsumptionAnalyzer_init) [example_m1, example_m3]))
         (mutant_id example_m3)
     = coverage_get (fst (map_mutant_coverage example_md5
                          (coverage_mapper SubsumptionAnalyzer_init) [example_m1, example_m3]))
         (mutant_id example_m1)
   \<and> \<not> coverage_get (fst (map_mutant_coverage example_md5
                          (coverage_mapper SubsumptionAnalyzer_init) [example_m1, example_m3]))
         (mutant_id example_m3)
     \<subset> coverage_get (fst (map_mutant_coverage example_md5
                          (coverage_mapper SubsumptionAnalyzer_init) [example_m1, example_m3]))
         (mutant_id example_m1)"
proof -
  note cov = map_mutant_coverage_same_location [OF example_pair_facts(1,2,3), of example_md5]
  have "snd (apply_coverage_subsumption example_md5 SubsumptionAnalyzer_init
          [example_m1, example_m3]) = [example_m1]"
    by (rule same_location_pair_removed [OF example_pair_facts])
  then show ?thesis unfolding cov by simp
qed

subsection \<open>Operator-level subsumption\<close>

lemma subsumed_operators_simps:
  "subsumed_operators BOUNDARY_CONDITION = {NEGATE_CONDITIONAL}"
  "subsumed_operators NEGATE_CONDITIONAL = {}"
  by (simp_all add: subsumed_operators_def OPERATOR_SUBSUMPTIONS_def)

lemma group_by_file_pair:
  "file_path (location a) = file_path (location b) \<Longrightarrow>
   group_by_file [a, b] = [(file_path (location a), [a, b])]"
  by (simp add: group_by_file_def add_to_group_def)

lemma sort_key_pair:
  "sort_key f [a, b] = (if f a \<le> f b then [a, b] else [b, a])"
  by simp

text \<open>
  Claim C6, as the code has it.  For a boundary-condition mutant \<open>b\<close> and a
  negate-conditional mutant \<open>n\<close> of the same file with different ids, given in either
  order: \<open>n\<close> is removed when \<open>b\<close> comes first in line order within 5 lines (on one line,
  when \<open>b\<close> is also first in the input); both survive when \<open>n\<close> is on an earlier line,
  and when the lines are 6 or more apart.
\<close>

theorem operator_subsumption_pair:
  assumes "operator b = BOUNDARY_CONDITION" and "operator n = NEGATE_CONDITIONAL"
    and "file_path (location b) = file_path (location n)"
    and "mutant_id b \<noteq> mutant_id n"
  shows "(line_start (location b) < line_start (location n)
            \<and> line_start (location n) - line_start (location b) \<le> 5 \<longrightarrow>
           snd (apply_operator_subsumption an [b, n]) = [b]
           \<and> snd (apply_operator_subsumption an [n, b]) = [b])
       \<and> (line_start (location b) = line_start (location n) \<longrightarrow>
           snd (apply_operator_subsumption an [b, n]) = [b]
           \<and> snd (apply_operator_subsumption an [n, b]) = [n, b])
       \<and> (line_start (location n) < line_start (location b) \<longrightarrow>
           snd (apply_operator_subsumption an [b, n]) = [b, n]
           \<and> snd (apply_operator_subsumption an [n, b]) = [n, b])
       \<and> (\<bar>line_start (location n) - line_start (location b)\<bar> \<ge> 6 \<longrightarrow>
           snd (apply_operator_subsumption an [b, n]) = [b, n]
           \<and> snd (apply_operator_subsumption an [n, b]) = [n, b])"
proof -
  have gbn: "group_by_file [b, n] = [(file_path (location b), [b, n])]"
    using assms(3) by (rule group_by_file_pair)
  have gnb: "group_by_file [n, b] = [(file_path (location n), [n, b])]"
    using assms(3) [symmetric] by (rule group_by_file_pair)
  have bn: "snd (apply_operator_subsumption an [b, n]) =
      (if line_start (location b) \<le> line_start (location n)
          \<and> line_start (location n) - line_start (location b) \<le> 5 then [b] else [b, n])"
    using assms(1,2,4)
    by (simp add: apply_operator_subsumption_def gbn sort_key_pair subsumed_operators_simps
        del: sort_key_simps)
  have nb: "snd (apply_operator_subsumption an [n, b]) =
      (if line_start (location b) < line_start (location n)
          \<and> line_start (location n) - line_start (location b) \<le> 5 then [b] else [n, b])"
    using assms(1,2,4)
    by (simp add: apply_operator_subsumption_def gnb sort_key_pair subsumed_operators_simps
        del: sort_key_simps)
  show ?thesis unfolding bn nb by simp
qed

theorem operator_subsumption_pair_witness:
  "snd (apply_operator_subsumption SubsumptionAnalyzer_init
          [boundary_mutant 10, negate_mutant 12]) = [boundary_mutant 10]
   \<and> snd (apply_operator_subsumption SubsumptionAnalyzer_init
          [boundary_mutant 10, negate_mutant 16]) = [boundary_mutant 10, negate_mutant 16]"
  using operator_subsumption_pair [of "boundary_mutant 10" "negate_mutant 12"
      SubsumptionAnalyzer_init]
    operator_subsumption_pair [of "boundary_mutant 10" "negate_mutant 16"
      SubsumptionAnalyzer_init]
  by (simp add: boundary_mutant_def negate_mutant_def new_mutant_def)

text \<open>
  Claim C6 as stated fails: with the negate-conditional mutant on line 10 and the
  boundary-condition mutant on line 12 (a gap of 2) both survive.
\<close>

theorem operator_subsumption_negate_first:
  "snd (apply_operator_subsumption SubsumptionAnalyzer_init
          [boundary_mutant 12, negate_mutant 10]) = [boundary_mutant 12, negate_mutant 10]
   \<and> \<bar>line_start (location (boundary_mutant 12)) - line_start (location (negate_mutant 10))\<bar>
       \<le> 5"
  by (simp add: apply_operator_subsumption_def group_by_file_def add_to_group_def Let_def
      subsumed_operators_def OPERATOR_SUBSUMPTIONS_def boundary_mutant_def negate_mutant_def
      new_mutant_def SubsumptionAnalyzer_init_def)

end
